theory Spec2Isabelle
  imports Complex_Main "HOL-Library.AList" "HOL-Library.Sublist"
begin

section \<open>Strings and numbers of the source language\<close>

text \<open>
  A source string is modelled as a \<^typ>\<open>string\<close>, read as the list of its code units; the
  model covers code units below 256.  A source number is a double: a finite value, carried
  as the rational it is, one of the two infinities, or \<open>NaN\<close>.  The numbers falsy in a
  condition are zero and \<open>NaN\<close>.
\<close>

datatype number = Num rat | PosInfinity | NegInfinity | NaN

definition falsy :: "number \<Rightarrow> bool" where
  "falsy n \<longleftrightarrow> n = Num 0 \<or> n = NaN"

text \<open>
  What \<open>parseInt\<close> returns on a run of digits, and what multiplication and addition make
  of such values, is a natural number, \<open>Infinity\<close> or \<open>NaN\<close>: the type \<open>whole\<close>, which
  \<open>number_of\<close> embeds in the numbers.  A natural number that is not a double is rounded to
  the nearest one, to the even one of two that are equally near, and to \<open>Infinity\<close> from
  \<open>2 ^ 1024 - 2 ^ 970\<close> on (\<open>nearest_double\<close>); below \<open>2 ^ 53\<close> every natural number is a
  double.
\<close>

datatype whole = Whole nat | Infinite | Invalid

fun number_of :: "whole \<Rightarrow> number" where
  "number_of (Whole n) = Num (of_nat n)"
| "number_of Infinite = PosInfinity"
| "number_of Invalid = NaN"

fun bits :: "nat \<Rightarrow> nat" where
  \<comment> \<open>the number of binary digits\<close>
  "bits n = (if n = 0 then 0 else Suc (bits (n div 2)))"

declare bits.simps [simp del]

definition nearest_double :: "nat \<Rightarrow> whole" where
  \<comment> \<open>for \<open>n\<close> of more than 53 binary digits: \<open>q\<close> is its leading 53 digits, \<open>r\<close> the
      \<open>e\<close> digits cut off and \<open>h\<close> half a unit of the last digit kept\<close>
  "nearest_double n =
     (if n < 2 ^ 53 then Whole n
      else (let e = bits n - 53; q = n div 2 ^ e; r = n mod 2 ^ e; h = 2 ^ (e - 1);
                q' = (if h < r \<or> (r = h \<and> odd q) then q + 1 else q)
            in if 2 ^ 1024 \<le> q' * 2 ^ e then Infinite else Whole (q' * 2 ^ e)))"

fun wtimes :: "whole \<Rightarrow> whole \<Rightarrow> whole" where
  \<comment> \<open>\<open>a * b\<close>\<close>
  "wtimes (Whole a) (Whole b) = nearest_double (a * b)"
| "wtimes Invalid b = Invalid"
| "wtimes a Invalid = Invalid"
| "wtimes Infinite (Whole b) = (if b = 0 then Invalid else Infinite)"
| "wtimes (Whole a) Infinite = (if a = 0 then Invalid else Infinite)"
| "wtimes Infinite Infinite = Infinite"

fun wplus :: "whole \<Rightarrow> whole \<Rightarrow> whole" where
  \<comment> \<open>\<open>a + b\<close>\<close>
  "wplus (Whole a) (Whole b) = nearest_double (a + b)"
| "wplus Invalid b = Invalid"
| "wplus a Invalid = Invalid"
| "wplus Infinite b = Infinite"
| "wplus a Infinite = Infinite"

definition is_space :: "char \<Rightarrow> bool" where
  \<comment> \<open>the characters matched by \<open>\s\<close> and removed by \<open>trim()\<close>, below code unit 256:
      TAB, LF, VT, FF, CR, SPACE and NO-BREAK SPACE\<close>
  "is_space c \<longleftrightarrow> (of_char c :: nat) \<in> {9, 10, 11, 12, 13, 32, 160}"

definition is_digit :: "char \<Rightarrow> bool" where
  \<comment> \<open>\<open>\d\<close>: the ten ASCII digits\<close>
  "is_digit c \<longleftrightarrow> 48 \<le> (of_char c :: nat) \<and> (of_char c :: nat) \<le> 57"

definition digit_val :: "char \<Rightarrow> nat" where
  "digit_val c = of_char c - 48"

definition trim :: "string \<Rightarrow> string" where
  \<comment> \<open>\<open>String.prototype.trim\<close>\<close>
  "trim s = rev (dropWhile is_space (rev (dropWhile is_space s)))"

definition rtrim :: "string \<Rightarrow> string" where
  \<comment> \<open>a string without its trailing white space: what \<open>trim\<close> does to a string that has
      no leading white space\<close>
  "rtrim s = rev (dropWhile is_space (rev s))"

definition decimal_value :: "string \<Rightarrow> nat" where
  \<comment> \<open>the natural number a run of digits writes\<close>
  "decimal_value ds = foldl (\<lambda>a c. 10 * a + digit_val c) 0 ds"

definition parseInt :: "string \<Rightarrow> whole" where
  \<comment> \<open>\<open>parseInt(ds, 10)\<close> on a run of ASCII digits, the only strings the source applies it
      to: the number written, rounded to the nearest double as the engine does; \<open>NaN\<close> on
      the empty string\<close>
  "parseInt ds = (if ds = [] then Invalid else nearest_double (decimal_value ds))"

definition first_digits :: "string \<Rightarrow> string option" where
  \<comment> \<open>\<open>s.match(/(\d+)/)\<close>: the leftmost maximal run of digits, \<open>None\<close> for no match\<close>
  "first_digits s =
     (let r = dropWhile (\<lambda>c. \<not> is_digit c) s
      in if r = [] then None else Some (takeWhile is_digit r))"

section \<open>Duration and yield parsing (\<open>src/lib/utils.ts\<close>)\<close>

fun after_PT :: "string \<Rightarrow> string option" where
  \<comment> \<open>the text after the leftmost occurrence of \<open>PT\<close>; \<open>None\<close> when there is none\<close>
  "after_PT (a # b # rest) =
     (if a = CHR ''P'' \<and> b = CHR ''T'' then Some rest else after_PT (b # rest))"
| "after_PT _ = None"

definition opt_group :: "char \<Rightarrow> string \<Rightarrow> string option \<times> string" where
  \<comment> \<open>the greedy optional group \<open>(?:(\d+)u)?\<close> at the head of \<open>s\<close>: the captured digits
      (if the group takes part in the match) and the text left after it\<close>
  "opt_group u s =
     (let ds = takeWhile is_digit s; r = dropWhile is_digit s
      in if ds \<noteq> [] \<and> r \<noteq> [] \<and> hd r = u then (Some ds, tl r) else (None, s))"

definition duration_match :: "string \<Rightarrow> (string option \<times> string option) option" where
  \<comment> \<open>\<open>isoDuration.match(/PT(?:(\d+)H)?(?:(\d+)M)?/)\<close>: the two capture groups of the
      leftmost match\<close>
  "duration_match s =
     (case after_PT s of
        None \<Rightarrow> None
      | Some r \<Rightarrow>
          (let (h, r1) = opt_group (CHR ''H'') r; (m, r2) = opt_group (CHR ''M'') r1
           in Some (h, m)))"

definition or_zero :: "string option \<Rightarrow> string" where
  \<comment> \<open>\<open>match[i] || '0'\<close>: a group that took part is a non-empty string\<close>
  "or_zero g = (case g of None \<Rightarrow> ''0'' | Some ds \<Rightarrow> if ds = [] then ''0'' else ds)"

definition parseDuration :: "string option \<Rightarrow> number" where
  "parseDuration isoDuration =
     (case isoDuration of
        None \<Rightarrow> Num 0
      | Some s \<Rightarrow>
          if s = [] then Num 0
          else (case duration_match s of
                  None \<Rightarrow> Num 0
                | Some (h, m) \<Rightarrow>
                    (let hours = parseInt (or_zero h); minutes = parseInt (or_zero m)
                     in number_of (wplus (wtimes hours (Whole 60)) minutes))))"

datatype yield = YNum number | YStr string

text \<open>
  The object \<open>parseServings\<close> returns; its property \<open>text\<close> is the field \<open>text'\<close>.
\<close>

record servings_result =
  amount :: number
  text' :: string

definition parseServings :: "yield option \<Rightarrow> servings_result" where
  "parseServings yieldValue =
     (case yieldValue of
        None \<Rightarrow> \<lparr>amount = Num 1, text' = ''''\<rparr>
      | Some (YNum n) \<Rightarrow>
          if falsy n then \<lparr>amount = Num 1, text' = ''''\<rparr> else \<lparr>amount = n, text' = ''''\<rparr>
      | Some (YStr s) \<Rightarrow>
          if s = [] then \<lparr>amount = Num 1, text' = ''''\<rparr>
          else \<lparr>amount = (case first_digits s of
                           None \<Rightarrow> Num 1
                         | Some ds \<Rightarrow> number_of (parseInt ds)),
                text' = trim s\<rparr>)"

section \<open>Token cleaning (\<open>src/lib/utils.ts\<close>)\<close>

definition upper :: "char \<Rightarrow> char" where
  \<comment> \<open>the canonical form used by the \<open>i\<close> flag: ASCII letters are compared in upper case,
      a code unit from 128 on is never identified with an ASCII one\<close>
  "upper c =
     (if 97 \<le> (of_char c :: nat) \<and> (of_char c :: nat) \<le> 122
      then char_of ((of_char c :: nat) - 32) else c)"

definition ci_prefix :: "string \<Rightarrow> string \<Rightarrow> bool" where
  \<comment> \<open>the literal \<open>p\<close> matches at the start of \<open>s\<close>, ignoring case\<close>
  "ci_prefix p s \<longleftrightarrow> length p \<le> length s \<and> map upper (take (length p) s) = map upper p"

definition scheme_match :: "string \<Rightarrow> string option" where
  \<comment> \<open>\<open>/^(Bearer|Token)\s+/i\<close>: the text after the match, \<open>None\<close> when it does not match\<close>
  "scheme_match s =
     (if ci_prefix ''Bearer'' s \<and> drop 6 s \<noteq> [] \<and> is_space (hd (drop 6 s))
      then Some (dropWhile is_space (drop 6 s))
      else if ci_prefix ''Token'' s \<and> drop 5 s \<noteq> [] \<and> is_space (hd (drop 5 s))
      then Some (dropWhile is_space (drop 5 s))
      else None)"

definition cleanAuthToken :: "string \<Rightarrow> string" where
  \<comment> \<open>\<open>token.replace(/^(Bearer|Token)\s+/i, '').trim()\<close>\<close>
  "cleanAuthToken token = trim (case scheme_match token of None \<Rightarrow> token | Some r \<Rightarrow> r)"

section \<open>The Tandoor client (\<open>src/lib/tandoor-client.ts\<close>)\<close>

datatype AuthScheme = Token | Bearer

fun scheme_name :: "AuthScheme \<Rightarrow> string" where
  \<comment> \<open>\<open>AUTH_SCHEMES\<close> of \<open>src/lib/constants.ts\<close>\<close>
  "scheme_name Token = ''Token''"
| "scheme_name Bearer = ''Bearer''"

record TandoorConfig =
  config_baseUrl :: string
  config_token :: string

record TandoorClient =
  baseUrl :: string
  token :: string
  authScheme :: AuthScheme

definition strip_trailing_slash :: "string \<Rightarrow> string" where
  \<comment> \<open>\<open>replace(/\/$/, '')\<close>\<close>
  "strip_trailing_slash s = (if s \<noteq> [] \<and> last s = CHR ''/'' then butlast s else s)"

definition new_TandoorClient :: "TandoorConfig \<Rightarrow> TandoorClient" where
  \<comment> \<open>the constructor; \<open>authScheme\<close> starts as \<open>AUTH_SCHEMES.TOKEN\<close>\<close>
  "new_TandoorClient config =
     \<lparr>baseUrl = strip_trailing_slash (config_baseUrl config),
      token = cleanAuthToken (config_token config),
      authScheme = Token\<rparr>"

definition getAuthHeader :: "TandoorClient \<Rightarrow> string" where
  "getAuthHeader c = scheme_name (authScheme c) @ '' '' @ token c"

text \<open>
  The network.  A request is what \<open>fetch\<close> is given; a call of \<open>fetch\<close> either rejects (a
  network failure, \<open>Rejected msg\<close> for an error of message \<open>msg\<close>) or resolves with a
  response.  The exceptions that leave the client are those of \<open>client_error\<close>, a rejected
  \<open>fetch\<close> and a throwing \<open>URL\<close> constructor with their messages.  The remote side is any function from the
  requests seen so far and the current request to an outcome, and the state threaded
  through the client's operations is the client object together with the log of requests
  issued so far, oldest first.
\<close>

datatype payload = NoBody | Json string | FormData string

record request =
  req_url :: string
  req_method :: string
  req_headers :: "(string \<times> string) list"
  req_body :: payload

record response =
  resp_status :: nat
  resp_body :: string

datatype fetch_outcome = Rejected string | Resolved response

type_synonym server = "request list \<Rightarrow> request \<Rightarrow> fetch_outcome"

datatype client_error = InvalidURL string | NetworkFailure string | InvalidJSON

definition fetch :: "server \<Rightarrow> request \<Rightarrow> request list \<Rightarrow> fetch_outcome \<times> request list" where
  "fetch srv req lg = (srv lg req, lg @ [req])"

definition ok :: "response \<Rightarrow> bool" where
  \<comment> \<open>\<open>response.ok\<close>\<close>
  "ok r \<longleftrightarrow> 200 \<le> resp_status r \<and> resp_status r \<le> 299"

record options =
  opt_method :: string
  opt_headers :: "(string \<times> string) list"
  opt_body :: payload

definition makeRequest :: "TandoorClient \<Rightarrow> string \<Rightarrow> options \<Rightarrow> AuthScheme \<Rightarrow> request" where
  \<comment> \<open>the request built by the inner \<open>makeRequest\<close>: the given headers with
      \<open>Authorization\<close> set to the scheme and the token\<close>
  "makeRequest c url opts scheme =
     \<lparr>req_url = url, req_method = opt_method opts,
      req_headers =
        AList.update ''Authorization'' (scheme_name scheme @ '' '' @ token c) (opt_headers opts),
      req_body = opt_body opts\<rparr>"

definition fetchWithAuthFallback ::
  "server \<Rightarrow> string \<Rightarrow> options \<Rightarrow> TandoorClient \<times> request list \<Rightarrow>
     (client_error + response \<times> AuthScheme) \<times> TandoorClient \<times> request list" where
  \<comment> \<open>\<open>Token\<close> is tried first on every call; \<open>this.authScheme\<close> is written, never read\<close>
  "fetchWithAuthFallback srv url opts st =
     (let (c, lg) = st;
          (r1, log1) = fetch srv (makeRequest c url opts Token) lg
      in case r1 of
           Rejected msg \<Rightarrow> (Inl (NetworkFailure msg), c, log1)
         | Resolved response1 \<Rightarrow>
             if resp_status response1 = 401 \<or> resp_status response1 = 403
             then (let c' = c\<lparr>authScheme := Bearer\<rparr>;
                       (r2, log2) = fetch srv (makeRequest c' url opts Bearer) log1
                   in case r2 of
                        Rejected msg \<Rightarrow> (Inl (NetworkFailure msg), c', log2)
                      | Resolved response2 \<Rightarrow> (Inr (response2, authScheme c'), c', log2))
             else (let c' = c\<lparr>authScheme := Token\<rparr>
                   in (Inr (response1, authScheme c'), c', log1)))"

text \<open>
  What the platform supplies and the client only calls: \<open>new URL(path, base).toString()\<close>
  (\<open>Throws msg\<close> when the constructor throws an error of message \<open>msg\<close>),
  \<open>JSON.stringify\<close> on a recipe, \<open>response.json()\<close> (\<open>None\<close> when the body is not JSON and
  the promise rejects), and the string a number becomes in a template literal.
\<close>

datatype url_outcome = Throws string | Url string

record ('p, 'r) platform =
  URL_toString :: "string \<Rightarrow> string \<Rightarrow> url_outcome"
  JSON_stringify :: "'p \<Rightarrow> string"
  response_json :: "response \<Rightarrow> 'r option"
  ToString :: "number \<Rightarrow> string"

definition buildUrl :: "('p, 'r) platform \<Rightarrow> TandoorClient \<Rightarrow> string \<Rightarrow> url_outcome" where
  "buildUrl pl c path = URL_toString pl path (baseUrl c)"

record 'r create_result =
  data :: "'r option"
  error :: "string option"
  status :: nat

definition createRecipe ::
  "('p, 'r) platform \<Rightarrow> server \<Rightarrow> 'p \<Rightarrow> TandoorClient \<times> request list \<Rightarrow>
     (client_error + 'r create_result) \<times> TandoorClient \<times> request list" where
  "createRecipe pl srv recipe st =
     (case buildUrl pl (fst st) ''/api/recipe/'' of
        Throws msg \<Rightarrow> (Inl (InvalidURL msg), st)
      | Url targetUrl \<Rightarrow>
          (case fetchWithAuthFallback srv targetUrl
                  \<lparr>opt_method = ''POST'',
                   opt_headers = [(''Content-Type'', ''application/json''),
                                  (''Accept'', ''application/json'')],
                   opt_body = Json (JSON_stringify pl recipe)\<rparr> st of
             (Inl e, st') \<Rightarrow> (Inl e, st')
           | (Inr (response, scheme), st') \<Rightarrow>
               if ok response \<or> resp_status response = 201
               then (case response_json pl response of
                       None \<Rightarrow> (Inl InvalidJSON, st')
                     | Some d \<Rightarrow>
                         (Inr \<lparr>data = Some d, error = None, status = resp_status response\<rparr>,
                          st'))
               else (Inr \<lparr>data = None, error = Some (resp_body response),
                          status = resp_status response\<rparr>, st')))"

record upload_result =
  success :: bool
  upload_error :: "string option"

definition uploadImageFromUrl ::
  "('p, 'r) platform \<Rightarrow> server \<Rightarrow> number \<Rightarrow> string \<Rightarrow> TandoorClient \<times> request list \<Rightarrow>
     upload_result \<times> TandoorClient \<times> request list" where
  \<comment> \<open>every exception is caught and reported as \<open>success = False\<close> with its message\<close>
  "uploadImageFromUrl pl srv recipeId imageUrl st =
     (let (c, lg) = st;
          (r1, log1) = fetch srv \<lparr>req_url = imageUrl, req_method = ''GET'', req_headers = [],
                                  req_body = NoBody\<rparr> lg
      in case r1 of
           Rejected msg \<Rightarrow> (\<lparr>success = False, upload_error = Some msg\<rparr>, c, log1)
         | Resolved imageResponse \<Rightarrow>
             if \<not> ok imageResponse
             then (\<lparr>success = False, upload_error = Some ''Failed to fetch image''\<rparr>, c, log1)
             else (case buildUrl pl c (''/api/recipe/'' @ ToString pl recipeId @ ''/image/'') of
                     Throws msg \<Rightarrow> (\<lparr>success = False, upload_error = Some msg\<rparr>, c, log1)
                   | Url uploadUrl \<Rightarrow>
                       (let (r2, log2) =
                              fetch srv \<lparr>req_url = uploadUrl, req_method = ''PUT'',
                                         req_headers = [(''Authorization'', getAuthHeader c)],
                                         req_body = FormData (resp_body imageResponse)\<rparr> log1
                        in case r2 of
                             Rejected msg \<Rightarrow>
                               (\<lparr>success = False, upload_error = Some msg\<rparr>, c, log2)
                           | Resolved uploadResponse \<Rightarrow>
                               if ok uploadResponse
                               then (\<lparr>success = True, upload_error = None\<rparr>, c, log2)
                               else (\<lparr>success = False,
                                      upload_error = Some (resp_body uploadResponse)\<rparr>,
                                     c, log2))))"

subsection \<open>Step refinement\<close>

text \<open>
  The type parameter \<open>T\<close> of \<open>refineTandoorSteps\<close>: three optional properties, and whatever
  else the step object carries (the extension of the record), which the spread
  \<open>...singleStep\<close> copies.
\<close>

record 'i T =
  T_instruction :: "string option"
  T_ingredients :: "'i list option"
  T_show_ingredients_table :: "bool option"

fun split_on :: "char \<Rightarrow> string \<Rightarrow> string list" where
  \<comment> \<open>\<open>s.split(c)\<close> for a one-character separator\<close>
  "split_on c [] = [[]]"
| "split_on c (x # xs) =
     (if x = c then [] # split_on c xs
      else (case split_on c xs of [] \<Rightarrow> [[x]] | l # ls \<Rightarrow> (x # l) # ls))"

definition NL :: char where
  \<comment> \<open>the line feed, \<open>'\n'\<close>\<close>
  "NL = CHR 0x0A"

definition step_lines :: "string \<Rightarrow> string list" where
  \<comment> \<open>\<open>instruction.split('\n').map(l => l.trim()).filter(l => l.length > 0)\<close>\<close>
  "step_lines ins = filter (\<lambda>l. length l > 0) (map trim (split_on NL ins))"

definition refined_step :: "('i, 'z) T_scheme \<Rightarrow> nat \<Rightarrow> string \<Rightarrow> ('i, 'z) T_scheme" where
  \<comment> \<open>the object built for the line at position \<open>index\<close>\<close>
  "refined_step singleStep index line =
     singleStep\<lparr>T_instruction := Some line,
                 T_ingredients := (if index = 0 then T_ingredients singleStep else Some []),
                 T_show_ingredients_table :=
                   (if index = 0
                    then Some (case T_show_ingredients_table singleStep of
                                 None \<Rightarrow> True | Some b \<Rightarrow> b)
                    else Some False)\<rparr>"

definition refineTandoorSteps ::
  "('i, 'z) T_scheme list option \<Rightarrow> ('i, 'z) T_scheme list option" where
  \<comment> \<open>\<open>None\<close> is an absent list, for which \<open>!steps\<close> holds\<close>
  "refineTandoorSteps steps =
     (case steps of
        None \<Rightarrow> None
      | Some ss \<Rightarrow>
          if length ss \<noteq> 1 then Some ss
          else (let singleStep = ss ! 0
                in case T_instruction singleStep of
                     None \<Rightarrow> Some ss
                   | Some ins \<Rightarrow>
                       if ins = [] \<or> NL \<notin> set ins then Some ss
                       else (let lines = step_lines ins
                             in if length lines \<le> 1 then Some ss
                                else Some (map (\<lambda>(index, line). refined_step singleStep index line)
                                             (enumerate 0 lines)))))"

definition import_refine ::
  "('i, 'z) T_scheme list option \<Rightarrow> ('i, 'z) T_scheme list option" where
  \<comment> \<open>\<open>if (recipeJson.steps) recipeJson.steps = refineTandoorSteps(recipeJson.steps)\<close>
      in the import route\<close>
  "import_refine steps = (case steps of None \<Rightarrow> None | Some ss \<Rightarrow> refineTandoorSteps (Some ss))"

section \<open>The adapter to the Tandoor payload (\<open>src/app/api/tandoor/route.ts\<close>)\<close>

text \<open>
  \<open>RecipePayload\<close>, the body of the request, and the types of \<open>src/types/tandoor.ts\<close>.  An
  optional property is an \<open>option\<close>.  The fields of \<open>RecipePayload\<close> carry the prefix \<open>p_\<close>
  and those of its steps the prefix \<open>rs_\<close>, since the payload built from them has fields of
  the same names; \<open>TandoorIngredient\<close> is flattened, \<open>food_name\<close> and \<open>unit_name\<close> being
  the \<open>name\<close> of its \<open>food\<close> and of its \<open>unit\<close> (\<open>None\<close> for \<open>null\<close>).
\<close>

datatype quantity = QStr string | QNum number

datatype ingredient =
  IngStr string
| IngObj (ing_food: string) (ing_unit: "string option") (ing_quantity: "quantity option")

record RecipeStep =
  rs_instruction :: "string option"
  rs_text :: "string option"

record RecipePayload =
  p_name :: string
  p_description :: "string option"
  p_steps :: "RecipeStep list option"
  p_ingredients :: "ingredient list option"
  p_url :: "string option"
  p_image :: "string option"
  p_prepTime :: "string option"
  p_cookTime :: "string option"
  p_recipeYield :: "yield option"

record TandoorIngredient =
  food_name :: string
  unit_name :: "string option"
  ing_amount :: number
  ing_note :: string

record 'i TandoorStep =
  instruction :: string
  ingredients :: "'i list"
  show_ingredients_table :: "bool option"

record TandoorRecipePayload =
  name :: string
  description :: string
  steps :: "TandoorIngredient TandoorStep list"
  source_url :: "string option"
  working_time :: number
  waiting_time :: number
  servings :: number
  servings_text :: string
  internal :: bool

definition truthy :: "string option \<Rightarrow> bool" where
  \<comment> \<open>an optional string in a condition: absent and empty strings are falsy\<close>
  "truthy s \<longleftrightarrow> (case s of None \<Rightarrow> False | Some v \<Rightarrow> v \<noteq> [])"

definition or_0 :: "number \<Rightarrow> number" where
  \<comment> \<open>\<open>n || 0\<close>\<close>
  "or_0 n = (if falsy n then Num 0 else n)"

definition quantity_amount :: "(string \<Rightarrow> number) \<Rightarrow> quantity option \<Rightarrow> number" where
  \<comment> \<open>\<open>parseFloat(String(ing.quantity)) || 0\<close>.  \<open>parseFloat\<close> is the platform's; a number
      printed and parsed again is itself, and \<open>undefined\<close> prints as a word that parses to
      \<open>NaN\<close>\<close>
  "quantity_amount parseFloat q =
     (case q of
        None \<Rightarrow> or_0 NaN
      | Some (QNum n) \<Rightarrow> or_0 n
      | Some (QStr s) \<Rightarrow> or_0 (parseFloat s))"

definition mapIngredients ::
  "(string \<Rightarrow> number) \<Rightarrow> ingredient list option \<Rightarrow> TandoorIngredient list" where
  "mapIngredients parseFloat ings =
     (case ings of
        None \<Rightarrow> []
      | Some is \<Rightarrow>
          map (\<lambda>ing. case ing of
                 IngStr s \<Rightarrow> \<lparr>food_name = s, unit_name = None, ing_amount = Num 0, ing_note = []\<rparr>
               | IngObj f u q \<Rightarrow>
                   \<lparr>food_name = f, unit_name = (if truthy u then u else None),
                    ing_amount = quantity_amount parseFloat q, ing_note = []\<rparr>) is)"

definition step_text :: "(RecipeStep \<Rightarrow> string) \<Rightarrow> RecipeStep \<Rightarrow> string" where
  \<comment> \<open>\<open>step.instruction || step.text || JSON.stringify(step)\<close>\<close>
  "step_text stringify step =
     (if truthy (rs_instruction step) then the (rs_instruction step)
      else if truthy (rs_text step) then the (rs_text step)
      else stringify step)"

definition mapSteps ::
  "(RecipeStep \<Rightarrow> string) \<Rightarrow> RecipeStep list option \<Rightarrow> 'i list \<Rightarrow> 'i TandoorStep list" where
  "mapSteps stringify stps ings =
     (if stps = None \<or> length (the stps) = 0
      then (if length ings > 0
            then [\<lparr>instruction = ''Prepare ingredients'', ingredients = ings,
                   show_ingredients_table = None\<rparr>]
            else [])
      else map (\<lambda>(index, step).
                  \<lparr>instruction = step_text stringify step,
                   ingredients = (if index = 0 then ings else []),
                   show_ingredients_table = None\<rparr>)
             (enumerate 0 (the stps)))"

definition DEFAULT_RECIPE_DESCRIPTION :: string where
  "DEFAULT_RECIPE_DESCRIPTION = ''Imported via VibeRecipe''"

definition buildTandoorPayload ::
  "(string \<Rightarrow> number) \<Rightarrow> (RecipeStep \<Rightarrow> string) \<Rightarrow> RecipePayload \<Rightarrow>
     TandoorRecipePayload" where
  "buildTandoorPayload parseFloat stringify d =
     (let mappedIngredients = mapIngredients parseFloat (p_ingredients d);
          mappedSteps = mapSteps stringify (p_steps d) mappedIngredients;
          workingTime = parseDuration (p_prepTime d);
          waitingTime = parseDuration (p_cookTime d);
          sv = parseServings (p_recipeYield d)
      in \<lparr>name = p_name d,
          description =
            (if truthy (p_description d) then the (p_description d)
             else DEFAULT_RECIPE_DESCRIPTION),
          steps = mappedSteps,
          source_url = p_url d,
          working_time = workingTime,
          waiting_time = waitingTime,
          servings = amount sv,
          servings_text = text' sv,
          internal = True\<rparr>)"

section \<open>The extraction route (\<open>src/app/api/extract/route.ts\<close>)\<close>

subsection \<open>Cleaning the model's response\<close>

function remove_all :: "string \<Rightarrow> string \<Rightarrow> string" where
  \<comment> \<open>\<open>s.replace(/pat/g, '')\<close> for a literal pattern: the occurrences are found from left
      to right and do not overlap\<close>
  "remove_all pat [] = []"
| "remove_all pat (x # xs) =
     (if pat \<noteq> [] \<and> take (length pat) (x # xs) = pat
      then remove_all pat (drop (length pat) (x # xs))
      else x # remove_all pat xs)"
  by pat_completeness auto
termination
  by (relation "measure (\<lambda>(pat, s). length s)") auto

definition from_first_brace :: "string \<Rightarrow> string" where
  \<comment> \<open>\<open>replace(/^[\s\S]*?\{/, '{')\<close>: drop what stands before the first opening brace\<close>
  "from_first_brace s =
     (if CHR ''{'' \<in> set s then dropWhile (\<lambda>c. c \<noteq> CHR ''{'') s else s)"

definition to_last_brace :: "string \<Rightarrow> string" where
  \<comment> \<open>\<open>replace(/\}[^}]*$/, '}')\<close>: drop what stands after the last closing brace\<close>
  "to_last_brace s =
     (if CHR ''}'' \<in> set s then rev (dropWhile (\<lambda>c. c \<noteq> CHR ''}'') (rev s)) else s)"

definition cleanJsonResponse :: "string \<Rightarrow> string" where
  "cleanJsonResponse txt =
     trim (to_last_brace (from_first_brace (remove_all ''```'' (remove_all ''```json'' txt))))"

subsection \<open>Values of unknown shape\<close>

text \<open>
  What \<open>JSON.parse\<close> returns.  An object is the list of its properties in insertion order,
  without repeated keys; a property that is not there reads as \<open>undefined\<close>, here \<open>None\<close>.
\<close>

datatype json =
  JNull | JBool bool | JNum number | JStr string | JArr "json list" | JObj "(string \<times> json) list"

fun js_truthy :: "json option \<Rightarrow> bool" where
  "js_truthy None = False"
| "js_truthy (Some JNull) = False"
| "js_truthy (Some (JBool b)) = b"
| "js_truthy (Some (JNum n)) = (\<not> falsy n)"
| "js_truthy (Some (JStr s)) = (s \<noteq> [])"
| "js_truthy (Some (JArr xs)) = True"
| "js_truthy (Some (JObj kvs)) = True"

fun get_prop :: "json option \<Rightarrow> string \<Rightarrow> json option" where
  \<comment> \<open>\<open>v?.key\<close> for a key that no array and no primitive value has\<close>
  "get_prop (Some (JObj kvs)) key = map_of kvs key"
| "get_prop _ key = None"

fun is_object :: "json option \<Rightarrow> bool" where
  \<comment> \<open>\<open>typeof v === 'object'\<close>\<close>
  "is_object (Some JNull) = True"
| "is_object (Some (JArr xs)) = True"
| "is_object (Some (JObj kvs)) = True"
| "is_object _ = False"

subsection \<open>The world outside\<close>

datatype get_outcome = NetworkError | Timeout | Response nat string

datatype head_outcome = HeadOk | HeadNotOk | HeadFailed

datatype part = Text string | InlineData string string

datatype event = GET string | HEAD string | Generate "part list"

text \<open>
  The outcome of a call may depend on everything done before it.  \<open>GET\<close>, the \<open>fetch\<close> of a
  page together with the reading of its body, rejects (\<open>NetworkError\<close>, \<open>Timeout\<close>) or
  resolves with a status and a body; \<open>HEAD\<close> with its two-second
  limit resolves with an \<open>ok\<close> status, with another status, or rejects; the model's answer is
  its text, or \<open>None\<close> when the call throws.
\<close>

record world =
  http_get :: "event list \<Rightarrow> string \<Rightarrow> get_outcome"
  http_head :: "event list \<Rightarrow> string \<Rightarrow> head_outcome"
  generateContent :: "event list \<Rightarrow> part list \<Rightarrow> string option"

text \<open>
  Library functions the route calls: the text of \<open>body\<close> once cheerio has removed the
  \<open>script\<close>, \<open>style\<close>, \<open>nav\<close> and \<open>footer\<close> elements, \<open>JSON.parse\<close> read at the declared type
  \<open>Recipe\<close> (the properties of the parsed object, \<open>None\<close> when it throws),
  \<open>encodeURIComponent\<close>, and the printing of a number.
\<close>

record library =
  body_text :: "string \<Rightarrow> string"
  JSON_parse :: "string \<Rightarrow> (string \<times> json) list option"
  encodeURIComponent :: "string \<Rightarrow> string"
  Number_toString :: "number \<Rightarrow> string"

datatype exn = FetchFailed | TypeError

subsection \<open>Fetching the page\<close>

fun collapse_ws :: "string \<Rightarrow> string" where
  \<comment> \<open>\<open>replace(/\s+/g, ' ')\<close>: one space for each maximal run of white space, written
      when the last character of the run is reached\<close>
  "collapse_ws [] = []"
| "collapse_ws (x # xs) =
     (if is_space x
      then (if xs \<noteq> [] \<and> is_space (hd xs) then collapse_ws xs
            else CHR '' '' # collapse_ws xs)
      else x # collapse_ws xs)"

definition fetchUrlContent ::
  "world \<Rightarrow> library \<Rightarrow> string \<Rightarrow> event list \<Rightarrow> (exn + string) \<times> event list" where
  \<comment> \<open>one \<open>fetch\<close>; its status is not looked at\<close>
  "fetchUrlContent w lib url lg =
     (case http_get w lg url of
        NetworkError \<Rightarrow> (Inl FetchFailed, lg @ [GET url])
      | Timeout \<Rightarrow> (Inl FetchFailed, lg @ [GET url])
      | Response st html \<Rightarrow> (Inr (trim (collapse_ws (body_text lib html))), lg @ [GET url]))"

subsection \<open>Resolving the image\<close>

definition image_candidate :: "json option \<Rightarrow> json option" where
  \<comment> \<open>the value of \<open>imageUrl\<close> after the analysis of the shape of the image \<open>im\<close>; \<open>None\<close> is
      \<open>null\<close>.  The \<open>url\<close> of an object is taken as it is, whatever its type\<close>
  "image_candidate im =
     (case im of
        Some (JStr s) \<Rightarrow> Some (JStr s)
      | Some (JArr xs) \<Rightarrow>
          (let first = (case xs of [] \<Rightarrow> None | x # rest \<Rightarrow> Some x)
           in case first of
                Some (JStr s) \<Rightarrow> Some (JStr s)
              | _ \<Rightarrow> if is_object first \<and> js_truthy (get_prop first ''url'')
                     then get_prop first ''url'' else None)
      | _ \<Rightarrow> if is_object im \<and> js_truthy (get_prop im ''url'')
             then get_prop im ''url'' else None)"

definition normalizeImage ::
  "world \<Rightarrow> json option \<Rightarrow> event list \<Rightarrow> (exn + string option) \<times> event list" where
  \<comment> \<open>\<open>imageUrl.startsWith\<close> stands outside the \<open>try\<close>: on a candidate that is truthy and
      not a string it is not a function, and the call throws\<close>
  "normalizeImage w im lg =
     (if \<not> js_truthy im then (Inr None, lg)
      else (let imageUrl = image_candidate im
            in if \<not> js_truthy imageUrl then (Inr None, lg)
               else (case imageUrl of
                       Some (JStr u) \<Rightarrow>
                         if take 4 u = ''http''
                         then (case http_head w lg u of
                                 HeadOk \<Rightarrow> (Inr (Some u), lg @ [HEAD u])
                               | HeadNotOk \<Rightarrow> (Inr None, lg @ [HEAD u])
                               | HeadFailed \<Rightarrow> (Inr None, lg @ [HEAD u]))
                         else (Inr None, lg)
                     | _ \<Rightarrow> (Inl TypeError, lg))))"

fun join_with :: "string \<Rightarrow> string list \<Rightarrow> string" where
  "join_with sep [] = []"
| "join_with sep [x] = x"
| "join_with sep (x # y # ys) = x @ sep @ join_with sep (y # ys)"

fun to_string :: "(number \<Rightarrow> string) \<Rightarrow> json \<Rightarrow> string" where
  \<comment> \<open>the conversion to a string done by a template literal and, element by element, by
      \<open>join\<close>, which prints \<open>null\<close> as the empty string\<close>
  "to_string ns JNull = ''null''"
| "to_string ns (JBool b) = (if b then ''true'' else ''false'')"
| "to_string ns (JNum n) = ns n"
| "to_string ns (JStr s) = s"
| "to_string ns (JArr xs) =
     join_with '','' (map (\<lambda>x. if x = JNull then [] else to_string ns x) xs)"
| "to_string ns (JObj kvs) = ''[object Object]''"

definition POLLINATIONS_BASE_URL :: string where
  "POLLINATIONS_BASE_URL = ''https://pollinations.ai/p''"

definition generateFallbackImageUrl :: "library \<Rightarrow> (string \<times> json) list \<Rightarrow> string" where
  "generateFallbackImageUrl lib recipe =
     (let ingredients =
            (case map_of recipe ''recipeIngredient'' of
               Some (JArr xs) \<Rightarrow>
                 join_with '', ''
                   (map (\<lambda>x. if x = JNull then [] else to_string (Number_toString lib) x)
                      (take 3 xs))
             | _ \<Rightarrow> []);
          nm = (if js_truthy (map_of recipe ''name'')
                then to_string (Number_toString lib) (the (map_of recipe ''name''))
                else ''delicious food'');
          prompt = encodeURIComponent lib
                     (''Professional food photography of '' @ nm @ '', '' @ ingredients
                        @ '', high quality, lush lighting'')
      in POLLINATIONS_BASE_URL @ ''/'' @ prompt @ ''?model=flux&width=1024&height=1024'')"

subsection \<open>The handler\<close>

datatype req_body =
  FormBody "(string \<times> string) option"
| JsonBody string string
| Unreadable

record extract_request =
  api_key :: "string option"
  req_content :: req_body

datatype http_response =
  ErrorResponse string nat "string option"
| RecipeResponse "(string \<times> json) list"

definition EXTRACTION_PROMPT :: string where
  "EXTRACTION_PROMPT = concat (map (\<lambda>l. l @ [NL])
     ['''',
      ''You are a recipe extraction machine. '',
      ''Extract the recipe from the provided content.'',
      ''Output strictly valid JSON-LD format adhering to schema.org/Recipe.'',
      '''',
      ''RULES:'',
      ''1. Convert all units to valid Metric System (grams, ml, Celsius).'',
      ''2. If missing, infer reasonable values or omit.'',
      ''3. For images, describe the dish as the description.'',
      ''4. Output ONLY the raw JSON string. Do not use markdown blocks (```json).'',
      ''5. If the input is NOT a recipe, return { \"error\": \"Not a recipe\" }.''])"

definition prepare ::
  "world \<Rightarrow> library \<Rightarrow> req_body \<Rightarrow> event list \<Rightarrow>
     (http_response + part list \<times> string) \<times> event list" where
  \<comment> \<open>from the content type to \<open>promptParts\<close> and \<open>sourceUrl\<close>.  \<open>FormBody None\<close> is a form
      without a file, \<open>JsonBody content type\<close> the two fields of a JSON body, \<open>Unreadable\<close> a
      body whose reading throws; the message of a caught exception is left empty\<close>
  "prepare w lib b lg =
     (case b of
        Unreadable \<Rightarrow> (Inl (ErrorResponse ''Extraction failed'' 500 (Some [])), lg)
      | FormBody None \<Rightarrow> (Inl (ErrorResponse ''No file provided'' 400 None), lg)
      | FormBody (Some (base64Data, mimeType)) \<Rightarrow>
          (Inr ([InlineData base64Data mimeType], []), lg)
      | JsonBody content type \<Rightarrow>
          if type = ''url''
          then (case fetchUrlContent w lib content lg of
                  (Inl e, lg') \<Rightarrow> (Inl (ErrorResponse ''Failed to fetch URL'' 400 None), lg')
                | (Inr textToAnalyze, lg') \<Rightarrow> (Inr ([Text textToAnalyze], content), lg'))
          else (Inr ([Text content], []), lg))"

definition resolve_image ::
  "world \<Rightarrow> library \<Rightarrow> (string \<times> json) list \<Rightarrow> event list \<Rightarrow>
     (exn + (string \<times> json) list) \<times> event list" where
  \<comment> \<open>\<open>recipe.image = await normalizeImage(recipe.image)\<close>, then the fallback\<close>
  "resolve_image w lib recipe lg =
     (case normalizeImage w (map_of recipe ''image'') lg of
        (Inl e, lg') \<Rightarrow> (Inl e, lg')
      | (Inr img, lg') \<Rightarrow>
          (let recipe1 =
                 AList.update ''image'' (case img of None \<Rightarrow> JNull | Some u \<Rightarrow> JStr u) recipe
           in if \<not> js_truthy (map_of recipe1 ''image'')
              then (Inr (AList.update ''image''
                           (JStr (generateFallbackImageUrl lib recipe1)) recipe1), lg')
              else (Inr recipe1, lg')))"

definition finish ::
  "world \<Rightarrow> library \<Rightarrow> string \<Rightarrow> string \<Rightarrow> event list \<Rightarrow> http_response \<times> event list" where
  \<comment> \<open>the inner \<open>try\<close>: whatever is thrown in it is answered as a parse failure carrying
      the raw text\<close>
  "finish w lib sourceUrl txt lg =
     (case JSON_parse lib (cleanJsonResponse txt) of
        None \<Rightarrow> (ErrorResponse ''Failed to parse API response'' 500 (Some txt), lg)
      | Some recipe \<Rightarrow>
          (let recipe1 =
                 (if sourceUrl \<noteq> [] \<and> \<not> js_truthy (map_of recipe ''url'')
                  then AList.update ''url'' (JStr sourceUrl) recipe else recipe)
           in case resolve_image w lib recipe1 lg of
                (Inl e, lg') \<Rightarrow>
                  (ErrorResponse ''Failed to parse API response'' 500 (Some txt), lg')
              | (Inr recipe2, lg') \<Rightarrow> (RecipeResponse recipe2, lg')))"

definition POST ::
  "world \<Rightarrow> library \<Rightarrow> extract_request \<Rightarrow> event list \<Rightarrow> http_response \<times> event list" where
  \<comment> \<open>the handler: the key, the prompt parts, the call of the model, the inner \<open>try\<close>.  A
      call of the model that throws is answered by the outer \<open>catch\<close>\<close>
  "POST w lib req lg =
     (if \<not> truthy (api_key req) then (ErrorResponse ''Missing Gemini API Key'' 401 None, lg)
      else (case prepare w lib (req_content req) lg of
              (Inl resp, lg1) \<Rightarrow> (resp, lg1)
            | (Inr (promptParts, sourceUrl), lg1) \<Rightarrow>
                (let prompt = Text EXTRACTION_PROMPT # promptParts
                 in case generateContent w lg1 prompt of
                      None \<Rightarrow>
                        (ErrorResponse ''Extraction failed'' 500 (Some []),
                         lg1 @ [Generate prompt])
                    | Some txt \<Rightarrow> finish w lib sourceUrl txt (lg1 @ [Generate prompt]))))"

section \<open>Concrete inputs\<close>

text \<open>
  The inputs at which the statements below are evaluated: two recipe payloads, two parsed
  steps, a service that answers 401 unless the request carries \<open>Bearer secret\<close> with a
  client created for it and two calls of \<open>createRecipe\<close> made one after the other, and, for
  the extraction route, worlds in which the page is answered with 404, the network is
  down, or the model returns a recipe whose image has a number as its \<open>url\<close>.  The library
  functions are replaced by stand-ins that agree with them on the strings that occur.
\<close>

definition no_number :: "string \<Rightarrow> number" where
  \<comment> \<open>stands for \<open>parseFloat\<close> where no quantity is a string\<close>
  "no_number s = NaN"

definition empty_object :: "RecipeStep \<Rightarrow> string" where
  \<comment> \<open>stands for \<open>JSON.stringify\<close> where every step has an instruction or a text\<close>
  "empty_object step = ''{}''"

definition soup :: RecipePayload where
  "soup = \<lparr>p_name = ''Soup'', p_description = None, p_steps = None, p_ingredients = None,
     p_url = None, p_image = None, p_prepTime = None, p_cookTime = None,
     p_recipeYield = Some (YStr ''0 servings'')\<rparr>"

definition pasta :: RecipePayload where
  "pasta = \<lparr>p_name = ''Pasta'', p_description = None,
     p_steps = Some [\<lparr>rs_instruction = Some ''Boil water'', rs_text = None\<rparr>,
                     \<lparr>rs_instruction = None, rs_text = Some ''Cook pasta''\<rparr>],
     p_ingredients = Some [IngStr ''salt'', IngObj ''pasta'' (Some ''g'') (Some (QNum (Num 500)))],
     p_url = None, p_image = None, p_prepTime = Some ''PT5M'', p_cookTime = Some ''PT10M'',
     p_recipeYield = Some (YNum (Num 2))\<rparr>"

definition giant :: "string T" where
  \<comment> \<open>five pieces: two of them blank, the others with spaces, a tab and a carriage return
      around their text\<close>
  "giant = \<lparr>T_instruction = Some (''  Chop onions '' @ [NL] @ [NL] @ [CHR 0x09] @ ''Fry onions'' @
                                 [CHR 0x0D] @ [NL] @ ''  '' @ [NL] @ ''Serve ''),
     T_ingredients = Some [''onion''], T_show_ingredients_table = None\<rparr>"

definition blank :: "string T" where
  \<comment> \<open>three pieces, one line\<close>
  "blank = \<lparr>T_instruction = Some (''Serve'' @ [NL] @ ''  '' @ [NL]),
     T_ingredients = Some [''onion''], T_show_ingredients_table = None\<rparr>"

definition plain :: "string T" where
  "plain = \<lparr>T_instruction = Some ''Chop onions and fry them'',
     T_ingredients = Some [''onion''], T_show_ingredients_table = Some False\<rparr>"

definition mock_server :: server where
  "mock_server lg req =
     Resolved \<lparr>resp_status =
                 (if map_of (req_headers req) ''Authorization'' = Some ''Bearer secret''
                  then 201 else 401),
               resp_body = ''{}''\<rparr>"

definition test_platform :: "(unit, unit) platform" where
  "test_platform =
     \<lparr>URL_toString = (\<lambda>path base. Url (base @ path)),
      JSON_stringify = (\<lambda>recipe. ''{}''),
      response_json = (\<lambda>r. Some ()),
      ToString = (\<lambda>n. ''1'')\<rparr>"

definition fresh_client :: TandoorClient where
  "fresh_client =
     new_TandoorClient \<lparr>config_baseUrl = ''https://tandoor.test/'', config_token = ''secret''\<rparr>"

definition first_create ::
  "(client_error + unit create_result) \<times> TandoorClient \<times> request list" where
  "first_create = createRecipe test_platform mock_server () (fresh_client, [])"

definition second_create ::
  "(client_error + unit create_result) \<times> TandoorClient \<times> request list" where
  "second_create = createRecipe test_platform mock_server () (snd first_create)"

definition test_library :: library where
  "test_library =
     \<lparr>body_text = (\<lambda>html. '' Not   Found ''),
      JSON_parse = (\<lambda>s. if s = ''{}'' then Some [] else None),
      encodeURIComponent = (\<lambda>s. s),
      Number_toString = (\<lambda>n. ''0'')\<rparr>"

definition world404 :: world where
  "world404 =
     \<lparr>http_get = (\<lambda>lg url. Response 404 ''<html><body> Not   Found </body></html>''),
      http_head = (\<lambda>lg url. HeadFailed),
      generateContent = (\<lambda>lg parts. Some ''{}'')\<rparr>"

definition world_down :: world where
  "world_down =
     \<lparr>http_get = (\<lambda>lg url. NetworkError),
      http_head = (\<lambda>lg url. HeadFailed),
      generateContent = (\<lambda>lg parts. Some ''{}'')\<rparr>"

definition url_request :: extract_request where
  "url_request =
     \<lparr>api_key = Some ''key'', req_content = JsonBody ''https://example.test/recipe'' ''url''\<rparr>"

definition world_ai :: world where
  "world_ai =
     \<lparr>http_get = (\<lambda>lg url. NetworkError),
      http_head = (\<lambda>lg url. HeadOk),
      generateContent = (\<lambda>lg parts. Some ''{\"name\":\"Pasta\",\"image\":{\"url\":5}}'')\<rparr>"

definition library_ai :: library where
  "library_ai =
     \<lparr>body_text = (\<lambda>html. html),
      JSON_parse = (\<lambda>s. if s = ''{\"name\":\"Pasta\",\"image\":{\"url\":5}}''
                       then Some [(''name'', JStr ''Pasta''), (''image'', JObj [(''url'', JNum (Num 5))])]
                       else None),
      encodeURIComponent = (\<lambda>s. s),
      Number_toString = (\<lambda>n. ''5'')\<rparr>"

definition text_request :: extract_request where
  "text_request = \<lparr>api_key = Some ''key'', req_content = JsonBody ''Pasta with salt'' ''text''\<rparr>"


section \<open>White space\<close>

lemma dropWhile_no_lead: "s = [] \<or> \<not> is_space (hd s) \<Longrightarrow> dropWhile is_space s = s"
  by (cases s) auto

lemma no_lead_dropWhile: "dropWhile is_space s = [] \<or> \<not> is_space (hd (dropWhile is_space s))"
  using hd_dropWhile [of is_space s] by blast

lemma rtrim_decomp: "\<exists>ws. s = rtrim s @ ws \<and> list_all is_space ws"
proof -
  have "rev s = takeWhile is_space (rev s) @ dropWhile is_space (rev s)" by simp
  then have "s = rev (dropWhile is_space (rev s)) @ rev (takeWhile is_space (rev s))"
    by (metis rev_append rev_rev_ident)
  moreover have "list_all is_space (rev (takeWhile is_space (rev s)))"
    by (simp add: list_all_iff) (meson set_takeWhileD)
  ultimately show ?thesis unfolding rtrim_def by blast
qed

lemma rtrim_last: "rtrim s = [] \<or> \<not> is_space (last (rtrim s))"
  using no_lead_dropWhile [of "rev s"] by (auto simp: rtrim_def last_rev)

lemma rtrim_idem: "rtrim (rtrim s) = rtrim s"
  using rtrim_last [of s] by (cases "rtrim s = []") (auto simp: rtrim_def hd_rev dropWhile_no_lead)

lemma rtrim_hd: "s = [] \<or> \<not> is_space (hd s) \<Longrightarrow> rtrim s = [] \<or> \<not> is_space (hd (rtrim s))"
proof -
  assume a: "s = [] \<or> \<not> is_space (hd s)"
  obtain ws where w: "s = rtrim s @ ws" using rtrim_decomp by blast
  show ?thesis
  proof (cases "rtrim s = []")
    case True
    then show ?thesis by simp
  next
    case False
    then have "hd s = hd (rtrim s)" using w by (metis hd_append2)
    moreover have "s \<noteq> []" using False w by auto
    ultimately show ?thesis using a by auto
  qed
qed

lemma trim_no_lead: "s = [] \<or> \<not> is_space (hd s) \<Longrightarrow> trim s = rtrim s"
  by (simp add: trim_def rtrim_def dropWhile_no_lead)

lemma trim_rtrim: "s = [] \<or> \<not> is_space (hd s) \<Longrightarrow> trim (rtrim s) = rtrim s"
  using rtrim_hd [of s] trim_no_lead [of "rtrim s"] by (simp add: rtrim_idem)

lemma trim_dropWhile: "trim s = rtrim (dropWhile is_space s)"
  by (simp add: trim_def rtrim_def)

lemma trim_decomp: "\<exists>a b. s = a @ trim s @ b \<and> list_all is_space a \<and> list_all is_space b"
proof -
  obtain b where b: "dropWhile is_space s = rtrim (dropWhile is_space s) @ b" "list_all is_space b"
    using rtrim_decomp [of "dropWhile is_space s"] by blast
  have "s = takeWhile is_space s @ dropWhile is_space s" by simp
  then have "s = takeWhile is_space s @ trim s @ b"
    using b(1) by (simp add: trim_dropWhile)
  moreover have "list_all is_space (takeWhile is_space s)"
    by (simp add: list_all_iff) (meson set_takeWhileD)
  ultimately show ?thesis using b(2) by blast
qed

lemma trim_ends:
  assumes "trim s \<noteq> []"
  shows "\<not> is_space (hd (trim s)) \<and> \<not> is_space (last (trim s))"
  using assms rtrim_last [of "dropWhile is_space s"]
    rtrim_hd [OF no_lead_dropWhile [of s]]
  by (simp add: trim_dropWhile)

section \<open>Duration parsing\<close>

lemma nearest_double_small: "n < 2 ^ 53 \<Longrightarrow> nearest_double n = Whole n"
  by (simp add: nearest_double_def)

lemma bits_double: "0 < n \<Longrightarrow> bits (2 * n) = Suc (bits n)" "bits (2 * n + 1) = Suc (bits n)"
  using bits.simps [of "2 * n"] bits.simps [of "2 * n + 1"] by simp_all

lemma bits_power: "bits (2 ^ k) = Suc k"
proof (induction k)
  case 0
  show ?case using bits.simps [of 1] bits.simps [of 0] by simp
next
  case (Suc k)
  then show ?case using bits_double(1) [of "2 ^ k"] by simp
qed

lemma bits_2_53: "bits 9007199254740992 = 54"
  using bits_power [of 53] by simp

lemma bits_above_2_53: "bits 9007199254740993 = 54"
  using bits_double(2) [of "2 ^ 52"] bits_power [of 52] by simp

lemma nearest_double_above_2_53: "nearest_double 9007199254740993 = Whole 9007199254740992"
  by (simp add: nearest_double_def bits_above_2_53)

lemma nearest_double_2_53: "nearest_double 9007199254740992 = Whole 9007199254740992"
  using bits_2_53 by (simp add: nearest_double_def)

lemma nearest_double_examples:
  "nearest_double 9007199254740995 = Whole 9007199254740996"
  "nearest_double (2 ^ 1024) = Infinite"
proof -
  have "bits (2 * (2 * 2 ^ 51 + 1) + 1) = Suc (Suc (bits (2 ^ 51)))"
    by (simp only: bits_double(2))
  then have "bits 9007199254740995 = 54" using bits_power [of 51] by simp
  then show "nearest_double 9007199254740995 = Whole 9007199254740996"
    by (simp add: nearest_double_def)
  have "bits (2 ^ 1024) = 1025" using bits_power [of 1024] by simp
  then show "nearest_double (2 ^ 1024) = Infinite"
    by (simp add: nearest_double_def)
qed

lemma sum_exact:
  assumes "a * 60 + b < 2 ^ 53"
  shows "number_of (wplus (wtimes (Whole a) (Whole 60)) (Whole b)) = Num (of_nat (a * 60 + b))"
proof -
  have "a * 60 < 2 ^ 53" using assms by simp
  then have "wtimes (Whole a) (Whole 60) = Whole (a * 60)"
    by (simp add: nearest_double_small)
  then show ?thesis
    using assms by (simp add: nearest_double_small)
qed

lemma after_PT_None_iff: "after_PT s = None \<longleftrightarrow> \<not> sublist ''PT'' s"
  by (induction s rule: after_PT.induct) (auto simp: sublist_Cons_right prefix_Cons)

lemma after_PT_first:
  "\<not> sublist ''PT'' pre \<Longrightarrow> after_PT (pre @ CHR ''P'' # CHR ''T'' # rest) = Some rest"
proof (induction pre)
  case Nil
  then show ?case by simp
next
  case (Cons a pre)
  from Cons.prems have n: "\<not> sublist ''PT'' pre" and p: "\<not> prefix ''PT'' (a # pre)"
    by (simp_all add: sublist_Cons_right)
  show ?case
  proof (cases pre)
    case Nil
    then show ?thesis by simp
  next
    case (Cons b pre')
    then show ?thesis using Cons.IH [OF n] p by (auto simp: prefix_Cons)
  qed
qed

lemma not_digit_HM: "\<not> is_digit (CHR ''H'')" "\<not> is_digit (CHR ''M'')"
  by (simp_all add: is_digit_def)

lemma takeWhile_digits:
  "list_all is_digit ds \<Longrightarrow> \<not> is_digit c \<Longrightarrow> takeWhile is_digit (ds @ c # r) = ds"
  by (induction ds) auto

lemma dropWhile_digits:
  "list_all is_digit ds \<Longrightarrow> \<not> is_digit c \<Longrightarrow> dropWhile is_digit (ds @ c # r) = c # r"
  by (induction ds) auto

lemma opt_group_hit:
  "ds \<noteq> [] \<Longrightarrow> list_all is_digit ds \<Longrightarrow> \<not> is_digit u \<Longrightarrow>
     opt_group u (ds @ u # r) = (Some ds, r)"
  by (simp add: opt_group_def takeWhile_digits dropWhile_digits)

lemma opt_group_miss:
  "list_all is_digit ds \<Longrightarrow> \<not> is_digit c \<Longrightarrow> c \<noteq> u \<Longrightarrow>
     opt_group u (ds @ c # r) = (None, ds @ c # r)"
  by (simp add: opt_group_def takeWhile_digits dropWhile_digits)

lemma opt_group_absent:
  assumes "\<not> (\<exists>ds r. ds \<noteq> [] \<and> list_all is_digit ds \<and> s = ds @ u # r)"
  shows "opt_group u s = (None, s)"
proof (rule ccontr)
  assume "opt_group u s \<noteq> (None, s)"
  then have t: "takeWhile is_digit s \<noteq> []" and d: "dropWhile is_digit s \<noteq> []"
    and h: "hd (dropWhile is_digit s) = u"
    by (auto simp: opt_group_def Let_def split: if_splits)
  have "s = takeWhile is_digit s @ dropWhile is_digit s" by simp
  also have "dropWhile is_digit s = u # tl (dropWhile is_digit s)"
    using d h by (cases "dropWhile is_digit s") auto
  finally have "s = takeWhile is_digit s @ u # tl (dropWhile is_digit s)" .
  moreover have "list_all is_digit (takeWhile is_digit s)"
    by (simp add: list_all_iff) (meson set_takeWhileD)
  ultimately show False using assms t by blast
qed

lemma parseInt_digits: "ds \<noteq> [] \<Longrightarrow> parseInt ds = nearest_double (decimal_value ds)"
  by (simp add: parseInt_def)

lemma parseInt_zero: "parseInt ''0'' = Whole 0"
  by (simp add: parseInt_def decimal_value_def digit_val_def nearest_double_small)

lemma parseDuration_match:
  assumes "duration_match g = Some (h, m)"
  shows "parseDuration (Some g) =
     number_of (wplus (wtimes (parseInt (or_zero h)) (Whole 60)) (parseInt (or_zero m)))"
proof -
  have "g \<noteq> []" using assms by (auto simp: duration_match_def)
  then show ?thesis using assms by (simp add: parseDuration_def)
qed

lemma or_zero_simps: "or_zero None = ''0''" "ds \<noteq> [] \<Longrightarrow> or_zero (Some ds) = ds"
  by (simp_all add: or_zero_def)

lemma parseDuration_HM:
  assumes "\<not> sublist ''PT'' pre" "hs \<noteq> []" "list_all is_digit hs" "ms \<noteq> []" "list_all is_digit ms"
  shows "parseDuration (Some (pre @ ''PT'' @ hs @ ''H'' @ ms @ ''M'' @ rest)) =
     number_of (wplus (wtimes (nearest_double (decimal_value hs)) (Whole 60))
                  (nearest_double (decimal_value ms)))"
proof -
  have "duration_match (pre @ ''PT'' @ hs @ ''H'' @ ms @ ''M'' @ rest) = Some (Some hs, Some ms)"
    using assms opt_group_hit [of hs "CHR ''H''" "ms @ ''M'' @ rest"]
      opt_group_hit [of ms "CHR ''M''" rest] after_PT_first [of pre "hs @ ''H'' @ ms @ ''M'' @ rest"]
    by (simp add: duration_match_def not_digit_HM)
  then show ?thesis
    using assms by (simp add: parseDuration_match or_zero_simps parseInt_digits)
qed

lemma parseDuration_H:
  assumes "\<not> sublist ''PT'' pre" "hs \<noteq> []" "list_all is_digit hs"
    "\<not> (\<exists>ds r. ds \<noteq> [] \<and> list_all is_digit ds \<and> rest = ds @ ''M'' @ r)"
  shows "parseDuration (Some (pre @ ''PT'' @ hs @ ''H'' @ rest)) =
     number_of (wplus (wtimes (nearest_double (decimal_value hs)) (Whole 60)) (Whole 0))"
proof -
  have "opt_group (CHR ''M'') rest = (None, rest)"
    using assms(4) by (intro opt_group_absent) simp
  then have "duration_match (pre @ ''PT'' @ hs @ ''H'' @ rest) = Some (Some hs, None)"
    using assms opt_group_hit [of hs "CHR ''H''" rest] after_PT_first [of pre "hs @ ''H'' @ rest"]
    by (simp add: duration_match_def not_digit_HM)
  then show ?thesis
    using assms
    by (simp add: parseDuration_match or_zero_simps parseInt_digits parseInt_zero)
qed

lemma parseDuration_M:
  assumes "\<not> sublist ''PT'' pre" "ms \<noteq> []" "list_all is_digit ms"
  shows "parseDuration (Some (pre @ ''PT'' @ ms @ ''M'' @ rest)) =
     number_of (wplus (wtimes (Whole 0) (Whole 60)) (nearest_double (decimal_value ms)))"
proof -
  have "duration_match (pre @ ''PT'' @ ms @ ''M'' @ rest) = Some (None, Some ms)"
    using assms opt_group_hit [of ms "CHR ''M''" rest]
      opt_group_miss [of ms "CHR ''M''" "CHR ''H''" rest] after_PT_first [of pre "ms @ ''M'' @ rest"]
    by (simp add: duration_match_def not_digit_HM)
  then show ?thesis
    using assms
    by (simp add: parseDuration_match or_zero_simps parseInt_digits parseInt_zero)
qed

lemma parseDuration_neither:
  assumes "\<not> sublist ''PT'' pre"
    "\<not> (\<exists>ds r. ds \<noteq> [] \<and> list_all is_digit ds \<and> (rest = ds @ ''H'' @ r \<or> rest = ds @ ''M'' @ r))"
  shows "parseDuration (Some (pre @ ''PT'' @ rest)) = Num 0"
proof -
  have "opt_group (CHR ''H'') rest = (None, rest)" "opt_group (CHR ''M'') rest = (None, rest)"
    using assms(2) by (intro opt_group_absent; auto)+
  then have "duration_match (pre @ ''PT'' @ rest) = Some (None, None)"
    using assms(1) after_PT_first [of pre rest] by (simp add: duration_match_def)
  then show ?thesis
    by (simp add: parseDuration_match or_zero_simps parseInt_zero nearest_double_small)
qed

lemma parseDuration_no_match: "\<not> sublist ''PT'' g \<Longrightarrow> parseDuration (Some g) = Num 0"
  using after_PT_None_iff [of g] by (simp add: parseDuration_def duration_match_def)

lemma parseDuration_examples:
  "parseDuration (Some ''PT1H30M'') = Num 90" "parseDuration (Some ''PT45M'') = Num 45"
  "parseDuration None = Num 0" "parseDuration (Some ''garbage'') = Num 0"
  by (simp_all add: parseDuration_def duration_match_def opt_group_def is_digit_def
      or_zero_def parseInt_def decimal_value_def digit_val_def nearest_double_small
     )

text \<open>
  Claim C7, as the code has it.  The claim says that on every string of the pattern the
  result is the hours times 60 plus the minutes.  The numbers of the code are doubles:
  on \<open>PT9007199254740993M\<close>, where the minutes are \<open>2 ^ 53 + 1\<close>, \<open>parseInt\<close> gives the
  nearest double and the result is \<open>2 ^ 53\<close>.
\<close>

theorem parseDuration_rounding_counterexample:
  "parseDuration (Some ''PT9007199254740993M'') = Num 9007199254740992 \<and>
   decimal_value ''9007199254740993'' = 9007199254740993 \<and>
   Num 9007199254740992 \<noteq> Num (of_nat (0 * 60 + decimal_value ''9007199254740993''))"
proof -
  have d: "decimal_value ''9007199254740993'' = 9007199254740993"
    by (simp add: decimal_value_def digit_val_def)
  have "parseDuration (Some ([] @ ''PT'' @ ''9007199254740993'' @ ''M'' @ [])) =
     number_of (wplus (wtimes (Whole 0) (Whole 60))
                  (nearest_double (decimal_value ''9007199254740993'')))"
    by (rule parseDuration_M) (simp_all add: is_digit_def)
  then have "parseDuration (Some ''PT9007199254740993M'') = Num 9007199254740992"
    unfolding d nearest_double_above_2_53
    by (simp add: nearest_double_small nearest_double_2_53)
  then show ?thesis using d by simp
qed

text \<open>
  Claim C7, amended.  The pattern is searched for in the string and matches at the first
  \<open>PT\<close>, whatever stands before it (\<open>pre\<close>) and after the match (\<open>rest\<close>); the hours are a
  non-empty run of digits \<open>hs\<close> followed by \<open>H\<close> right after \<open>PT\<close>, the minutes a non-empty
  run of digits \<open>ms\<close> followed by \<open>M\<close> right after the hours, or after \<open>PT\<close> when there are
  no hours.  \<open>parseDuration\<close> returns the hours times 60 plus the minutes, a missing
  component counting as 0, the hours, the product and the sum each rounded to the nearest
  double: so exactly the hours times 60 plus the minutes whenever that is below \<open>2 ^ 53\<close>.
  On an absent input and on a string that does not contain \<open>PT\<close> it returns 0.  In
  particular it returns 90 on \<open>PT1H30M\<close>, 45 on \<open>PT45M\<close>, and 0 on \<open>undefined\<close> and on
  \<open>garbage\<close>.
\<close>

theorem parseDuration_cases:
  "parseDuration None = Num 0 \<and>
   (\<not> sublist ''PT'' g \<longrightarrow> parseDuration (Some g) = Num 0) \<and>
   (\<not> sublist ''PT'' pre \<and> hs \<noteq> [] \<and> list_all is_digit hs \<and> ms \<noteq> [] \<and> list_all is_digit ms \<longrightarrow>
      parseDuration (Some (pre @ ''PT'' @ hs @ ''H'' @ ms @ ''M'' @ rest)) =
        number_of (wplus (wtimes (nearest_double (decimal_value hs)) (Whole 60))
                     (nearest_double (decimal_value ms)))) \<and>
   (\<not> sublist ''PT'' pre \<and> hs \<noteq> [] \<and> list_all is_digit hs \<and>
      \<not> (\<exists>ds r. ds \<noteq> [] \<and> list_all is_digit ds \<and> rest = ds @ ''M'' @ r) \<longrightarrow>
      parseDuration (Some (pre @ ''PT'' @ hs @ ''H'' @ rest)) =
        number_of (wplus (wtimes (nearest_double (decimal_value hs)) (Whole 60)) (Whole 0))) \<and>
   (\<not> sublist ''PT'' pre \<and> ms \<noteq> [] \<and> list_all is_digit ms \<longrightarrow>
      parseDuration (Some (pre @ ''PT'' @ ms @ ''M'' @ rest)) =
        number_of (wplus (wtimes (Whole 0) (Whole 60)) (nearest_double (decimal_value ms)))) \<and>
   (\<not> sublist ''PT'' pre \<and>
      \<not> (\<exists>ds r. ds \<noteq> [] \<and> list_all is_digit ds \<and>
             (rest = ds @ ''H'' @ r \<or> rest = ds @ ''M'' @ r)) \<longrightarrow>
      parseDuration (Some (pre @ ''PT'' @ rest)) = Num 0) \<and>
   (n < 2 ^ 53 \<longrightarrow> nearest_double n = Whole n) \<and>
   (a * 60 + b < 2 ^ 53 \<longrightarrow>
      number_of (wplus (wtimes (Whole a) (Whole 60)) (Whole b)) = Num (of_nat (a * 60 + b))) \<and>
   parseDuration (Some ''PT1H30M'') = Num 90 \<and>
   parseDuration (Some ''PT45M'') = Num 45 \<and>
   parseDuration (Some ''garbage'') = Num 0"
proof (intro conjI impI)
  show "parseDuration (Some (pre @ ''PT'' @ hs @ ''H'' @ ms @ ''M'' @ rest)) =
        number_of (wplus (wtimes (nearest_double (decimal_value hs)) (Whole 60))
                     (nearest_double (decimal_value ms)))"
    if "\<not> sublist ''PT'' pre \<and> hs \<noteq> [] \<and> list_all is_digit hs \<and> ms \<noteq> [] \<and> list_all is_digit ms"
    using that by (intro parseDuration_HM) simp_all
  show "parseDuration (Some (pre @ ''PT'' @ hs @ ''H'' @ rest)) =
        number_of (wplus (wtimes (nearest_double (decimal_value hs)) (Whole 60)) (Whole 0))"
    if "\<not> sublist ''PT'' pre \<and> hs \<noteq> [] \<and> list_all is_digit hs \<and>
      \<not> (\<exists>ds r. ds \<noteq> [] \<and> list_all is_digit ds \<and> rest = ds @ ''M'' @ r)"
    using that by (intro parseDuration_H) simp_all
  show "parseDuration (Some (pre @ ''PT'' @ ms @ ''M'' @ rest)) =
        number_of (wplus (wtimes (Whole 0) (Whole 60)) (nearest_double (decimal_value ms)))"
    if "\<not> sublist ''PT'' pre \<and> ms \<noteq> [] \<and> list_all is_digit ms"
    using that by (intro parseDuration_M) simp_all
  show "parseDuration (Some (pre @ ''PT'' @ rest)) = Num 0"
    if "\<not> sublist ''PT'' pre \<and>
      \<not> (\<exists>ds r. ds \<noteq> [] \<and> list_all is_digit ds \<and>
             (rest = ds @ ''H'' @ r \<or> rest = ds @ ''M'' @ r))"
    using that by (intro parseDuration_neither) simp_all
  show "parseDuration (Some g) = Num 0" if "\<not> sublist ''PT'' g"
    using that by (rule parseDuration_no_match)
  show "nearest_double n = Whole n" if "n < 2 ^ 53"
    using that by (rule nearest_double_small)
  show "number_of (wplus (wtimes (Whole a) (Whole 60)) (Whole b)) = Num (of_nat (a * 60 + b))"
    if "a * 60 + b < 2 ^ 53"
    using that by (rule sum_exact)
qed (simp_all only: parseDuration_examples)

theorem parseDuration_cases_witness:
  "parseDuration (Some ''PT1H30M20S'') = Num 90 \<and>
   parseDuration (Some ''PT1H30'') = Num 60 \<and>
   parseDuration (Some ''Total: PT45M'') = Num 45 \<and>
   parseDuration (Some ''PTX'') = Num 0 \<and>
   parseDuration (Some ''half an hour'') = Num 0"
proof -
  have d: "decimal_value ''1'' = 1" "decimal_value ''30'' = 30" "decimal_value ''45'' = 45"
    by (simp_all add: decimal_value_def digit_val_def)
  have "parseDuration (Some ''PT1H30M20S'') = Num 90"
    using parseDuration_cases [of "[]" "[]" "''1''" "''30''" "''20S''" 0 1 30]
    by (simp add: is_digit_def d nearest_double_small)
  moreover have "parseDuration (Some ''PT1H30'') = Num 60"
    using parseDuration_cases [of "[]" "[]" "''1''" "[]" "''30''" 0 1 0]
    by (simp add: is_digit_def d nearest_double_small Cons_eq_append_conv)
  moreover have "parseDuration (Some ''Total: PT45M'') = Num 45"
    using parseDuration_cases [of "[]" "''Total: ''" "[]" "''45''" "[]" 0 0 45]
    by (simp add: is_digit_def d nearest_double_small sublist_Cons_right prefix_Cons)
  moreover have "parseDuration (Some ''PTX'') = Num 0"
    using parseDuration_cases [of "[]" "[]" "[]" "[]" "''X''" 0 0 0]
    by (simp add: is_digit_def Cons_eq_append_conv)
  moreover have "parseDuration (Some ''half an hour'') = Num 0"
    using parseDuration_cases [of "''half an hour''" "[]" "[]" "[]" "[]" 0 0 0]
    by (simp add: sublist_Cons_right prefix_Cons)
  ultimately show ?thesis by simp
qed

section \<open>Yield parsing\<close>

lemma first_digits_none: "list_all (\<lambda>c. \<not> is_digit c) s \<Longrightarrow> first_digits s = None"
  by (induction s) (auto simp: first_digits_def)

lemma dropWhile_nondigits:
  "list_all (\<lambda>c. \<not> is_digit c) pre \<Longrightarrow>
     dropWhile (\<lambda>c. \<not> is_digit c) (pre @ r) = dropWhile (\<lambda>c. \<not> is_digit c) r"
  by (induction pre) auto

lemma takeWhile_digits_end:
  "list_all is_digit ds \<Longrightarrow> post = [] \<or> \<not> is_digit (hd post) \<Longrightarrow>
     takeWhile is_digit (ds @ post) = ds"
  by (induction ds) (cases post; auto)+

lemma first_digits_run:
  assumes "list_all (\<lambda>c. \<not> is_digit c) pre" "ds \<noteq> []" "list_all is_digit ds"
    "post = [] \<or> \<not> is_digit (hd post)"
  shows "first_digits (pre @ ds @ post) = Some ds"
proof -
  obtain d ds' where ds: "ds = d # ds'" using assms(2) by (cases ds) auto
  with assms(3) have d: "is_digit d" by simp
  have "dropWhile (\<lambda>c. \<not> is_digit c) (pre @ ds @ post) = ds @ post"
    using assms(1) d ds by (simp add: dropWhile_nondigits)
  then show ?thesis
    using assms by (simp add: first_digits_def takeWhile_digits_end)
qed

lemma parseServings_run:
  assumes "list_all (\<lambda>c. \<not> is_digit c) pre" "ds \<noteq> []" "list_all is_digit ds"
    "post = [] \<or> \<not> is_digit (hd post)"
  shows "parseServings (Some (YStr (pre @ ds @ post))) =
     \<lparr>amount = number_of (nearest_double (decimal_value ds)), text' = trim (pre @ ds @ post)\<rparr>"
  using assms first_digits_run [of pre ds post] by (simp add: parseServings_def parseInt_digits)

lemma servings_payload:
  "servings (buildTandoorPayload pf sf d) = amount (parseServings (p_recipeYield d))"
  by (simp add: buildTandoorPayload_def Let_def)

text \<open>
  Claim C6, as the code has it.  The claim says that every number is returned as the
  serving count; the number 0 is not, it gives the serving count 1.  The claim says that
  for every string the serving count is the first integer in it; the numbers of the code
  are doubles, and for the integer \<open>2 ^ 53 + 1\<close> the serving count is \<open>2 ^ 53\<close>.
\<close>

theorem parseServings_counterexample:
  "parseServings (Some (YNum (Num 0))) \<noteq> \<lparr>amount = Num 0, text' = []\<rparr> \<and>
   parseServings (Some (YStr ''9007199254740993 servings'')) =
     \<lparr>amount = Num 9007199254740992, text' = ''9007199254740993 servings''\<rparr> \<and>
   decimal_value ''9007199254740993'' = 9007199254740993"
proof -
  have d: "decimal_value ''9007199254740993'' = 9007199254740993"
    by (simp add: decimal_value_def digit_val_def)
  have "parseServings (Some (YStr ([] @ ''9007199254740993'' @ '' servings''))) =
     \<lparr>amount = number_of (nearest_double (decimal_value ''9007199254740993'')),
      text' = trim ([] @ ''9007199254740993'' @ '' servings'')\<rparr>"
    by (rule parseServings_run) (simp_all add: is_digit_def)
  then have "parseServings (Some (YStr ''9007199254740993 servings'')) =
     \<lparr>amount = Num 9007199254740992, text' = ''9007199254740993 servings''\<rparr>"
    unfolding d nearest_double_above_2_53 by (simp add: trim_def is_space_def)
  then show ?thesis using d by (simp add: parseServings_def falsy_def)
qed

text \<open>
  Claim C6, amended.  For every number other than 0 and \<open>NaN\<close>, \<open>parseServings\<close> returns
  that number as the serving count with empty text; for 0 and for \<open>NaN\<close> the serving count
  is 1.  For every string it returns the first embedded integer (the leftmost maximal
  run of digits \<open>ds\<close>, standing after a text \<open>pre\<close> without digits and before a text \<open>post\<close>
  that does not start with a digit), rounded to the nearest double and so the integer
  itself when it is below \<open>2 ^ 53\<close>, as the serving count, 1 when the string has no
  digit, together with the whole string trimmed.  For an absent input it returns the
  serving count 1 and empty text.
\<close>

theorem parseServings_cases:
  "(n \<noteq> Num 0 \<and> n \<noteq> NaN \<longrightarrow> parseServings (Some (YNum n)) = \<lparr>amount = n, text' = []\<rparr>) \<and>
   parseServings (Some (YNum NaN)) = \<lparr>amount = Num 1, text' = []\<rparr> \<and>
   (list_all (\<lambda>c. \<not> is_digit c) pre \<and> ds \<noteq> [] \<and> list_all is_digit ds \<and>
      (post = [] \<or> \<not> is_digit (hd post)) \<longrightarrow>
      parseServings (Some (YStr (pre @ ds @ post))) =
        \<lparr>amount = number_of (nearest_double (decimal_value ds)),
         text' = trim (pre @ ds @ post)\<rparr>) \<and>
   (decimal_value ds < 2 ^ 53 \<longrightarrow>
      number_of (nearest_double (decimal_value ds)) = Num (of_nat (decimal_value ds))) \<and>
   (list_all (\<lambda>c. \<not> is_digit c) s \<longrightarrow>
      parseServings (Some (YStr s)) = \<lparr>amount = Num 1, text' = trim s\<rparr>) \<and>
   parseServings None = \<lparr>amount = Num 1, text' = []\<rparr>"
proof (intro conjI impI)
  show "parseServings (Some (YNum n)) = \<lparr>amount = n, text' = []\<rparr>" if "n \<noteq> Num 0 \<and> n \<noteq> NaN"
    using that by (simp add: parseServings_def falsy_def)
  show "parseServings (Some (YNum NaN)) = \<lparr>amount = Num 1, text' = []\<rparr>"
    by (simp add: parseServings_def falsy_def)
  show "parseServings (Some (YStr (pre @ ds @ post))) =
        \<lparr>amount = number_of (nearest_double (decimal_value ds)),
         text' = trim (pre @ ds @ post)\<rparr>"
    if "list_all (\<lambda>c. \<not> is_digit c) pre \<and> ds \<noteq> [] \<and> list_all is_digit ds \<and>
      (post = [] \<or> \<not> is_digit (hd post))"
    using that by (intro parseServings_run) simp_all
  show "number_of (nearest_double (decimal_value ds)) = Num (of_nat (decimal_value ds))"
    if "decimal_value ds < 2 ^ 53"
    using that by (simp add: nearest_double_small)
  show "parseServings (Some (YStr s)) = \<lparr>amount = Num 1, text' = trim s\<rparr>"
    if "list_all (\<lambda>c. \<not> is_digit c) s"
    using that first_digits_none [of s]
    by (cases "s = []") (simp_all add: parseServings_def trim_def)
  show "parseServings None = \<lparr>amount = Num 1, text' = []\<rparr>"
    by (simp add: parseServings_def)
qed

theorem parseServings_cases_witness:
  "parseServings (Some (YNum (Num 6))) = \<lparr>amount = Num 6, text' = []\<rparr> \<and>
   parseServings (Some (YStr ''4 servings'')) = \<lparr>amount = Num 4, text' = ''4 servings''\<rparr> \<and>
   parseServings (Some (YStr ''Makes 12 to 14 '')) = \<lparr>amount = Num 12, text' = ''Makes 12 to 14''\<rparr> \<and>
   parseServings (Some (YStr ''a dozen '')) = \<lparr>amount = Num 1, text' = ''a dozen''\<rparr> \<and>
   parseServings None = \<lparr>amount = Num 1, text' = []\<rparr>"
proof -
  have d: "decimal_value ''4'' = 4" "decimal_value ''12'' = 12"
    by (simp_all add: decimal_value_def digit_val_def)
  have "parseServings (Some (YNum (Num 6))) = \<lparr>amount = Num 6, text' = []\<rparr> \<and>
     parseServings (Some (YStr ''4 servings'')) = \<lparr>amount = Num 4, text' = ''4 servings''\<rparr> \<and>
     parseServings (Some (YStr ''a dozen '')) = \<lparr>amount = Num 1, text' = ''a dozen''\<rparr> \<and>
     parseServings None = \<lparr>amount = Num 1, text' = []\<rparr>"
    using parseServings_cases [of "Num 6" "[]" "''4''" "'' servings''" "''a dozen ''"]
    by (simp add: is_digit_def is_space_def trim_def d)
  moreover have "parseServings (Some (YStr ''Makes 12 to 14 '')) =
      \<lparr>amount = Num 12, text' = ''Makes 12 to 14''\<rparr>"
    using parseServings_cases [of "Num 6" "''Makes ''" "''12''" "'' to 14 ''" "[]"]
    by (simp add: is_digit_def is_space_def trim_def d)
  ultimately show ?thesis by simp
qed

text \<open>
  Claim C10.  \<open>parseServings\<close> applied to the number 0 or to the empty string returns the
  serving count 1 with empty text, so that a yield that is the number 0 or the empty
  string reaches the payload as 1 serving, not as 0.
\<close>

theorem falsy_yield:
  "parseServings (Some (YNum (Num 0))) = \<lparr>amount = Num 1, text' = []\<rparr> \<and>
   parseServings (Some (YStr [])) = \<lparr>amount = Num 1, text' = []\<rparr> \<and>
   (p_recipeYield d = Some (YNum (Num 0)) \<or> p_recipeYield d = Some (YStr []) \<longrightarrow>
      servings (buildTandoorPayload pf sf d) = Num 1)"
proof -
  have a: "parseServings (Some (YNum (Num 0))) = \<lparr>amount = Num 1, text' = []\<rparr>"
    and b: "parseServings (Some (YStr [])) = \<lparr>amount = Num 1, text' = []\<rparr>"
    by (simp_all add: parseServings_def falsy_def)
  show ?thesis
    using a b by (auto simp: servings_payload)
qed

theorem falsy_yield_witness:
  "servings (buildTandoorPayload no_number empty_object
      (soup\<lparr>p_recipeYield := Some (YNum (Num 0))\<rparr>)) = Num 1 \<and>
   servings (buildTandoorPayload no_number empty_object
      (soup\<lparr>p_recipeYield := Some (YStr [])\<rparr>)) = Num 1"
  using falsy_yield [of "soup\<lparr>p_recipeYield := Some (YNum (Num 0))\<rparr>" no_number empty_object]
    falsy_yield [of "soup\<lparr>p_recipeYield := Some (YStr [])\<rparr>" no_number empty_object]
  by simp

section \<open>The ingredients of the adapted steps\<close>

lemma mapSteps_nonempty:
  assumes "stps \<noteq> []"
  shows "mapSteps sf (Some stps) ings =
     map (\<lambda>(index, step). \<lparr>instruction = step_text sf step,
            ingredients = (if index = 0 then ings else []), show_ingredients_table = None\<rparr>)
       (enumerate 0 stps)"
  using assms by (simp add: mapSteps_def)

lemma mapSteps_length: "stps \<noteq> [] \<Longrightarrow> length (mapSteps sf (Some stps) ings) = length stps"
  by (simp add: mapSteps_nonempty)

lemma mapSteps_nth:
  "stps \<noteq> [] \<Longrightarrow> i < length stps \<Longrightarrow>
     mapSteps sf (Some stps) ings ! i =
       \<lparr>instruction = step_text sf (stps ! i), ingredients = (if i = 0 then ings else []),
        show_ingredients_table = None\<rparr>"
  by (simp add: mapSteps_nonempty nth_enumerate_eq)

lemma mapSteps_empty:
  "ings \<noteq> [] \<Longrightarrow> stps = None \<or> stps = Some [] \<Longrightarrow>
     mapSteps sf stps ings =
       [\<lparr>instruction = ''Prepare ingredients'', ingredients = ings, show_ingredients_table = None\<rparr>]"
  by (auto simp: mapSteps_def)

lemma steps_payload:
  "steps (buildTandoorPayload pf sf d) = mapSteps sf (p_steps d) (mapIngredients pf (p_ingredients d))"
  by (simp add: buildTandoorPayload_def Let_def)

lemma mapIngredients_length: "length (mapIngredients pf (Some is)) = length is"
  by (simp add: mapIngredients_def)

text \<open>
  Claim C2.  When a recipe with a non-empty sequence of steps is adapted, the payload has
  one step for each source step; the first carries the whole list of mapped ingredients
  and every other step carries the empty list.  When the source has no steps (the list is
  absent or empty) and at least one ingredient, the payload has exactly one step, with
  the instruction \<open>Prepare ingredients\<close> and all the mapped ingredients.
\<close>

theorem ingredient_attachment:
  "(p_steps d = Some stps \<and> stps \<noteq> [] \<longrightarrow>
      length (steps (buildTandoorPayload pf sf d)) = length stps \<and>
      ingredients (steps (buildTandoorPayload pf sf d) ! 0) = mapIngredients pf (p_ingredients d) \<and>
      (\<forall>i. 0 < i \<and> i < length stps \<longrightarrow>
         ingredients (steps (buildTandoorPayload pf sf d) ! i) = []) \<and>
      (\<forall>i < length stps.
         instruction (steps (buildTandoorPayload pf sf d) ! i) = step_text sf (stps ! i))) \<and>
   ((p_steps d = None \<or> p_steps d = Some []) \<and> p_ingredients d = Some is \<and> is \<noteq> [] \<longrightarrow>
      steps (buildTandoorPayload pf sf d) =
        [\<lparr>instruction = ''Prepare ingredients'',
          ingredients = mapIngredients pf (p_ingredients d),
          show_ingredients_table = None\<rparr>] \<and>
      length (mapIngredients pf (p_ingredients d)) = length is)"
proof (intro conjI impI)
  assume a: "p_steps d = Some stps \<and> stps \<noteq> []"
  then have len: "0 < length stps" by simp
  show "length (steps (buildTandoorPayload pf sf d)) = length stps"
    using a by (simp add: steps_payload mapSteps_length)
  show "ingredients (steps (buildTandoorPayload pf sf d) ! 0) = mapIngredients pf (p_ingredients d)"
    using a len by (simp add: steps_payload mapSteps_nth)
  show "\<forall>i. 0 < i \<and> i < length stps \<longrightarrow>
         ingredients (steps (buildTandoorPayload pf sf d) ! i) = []"
    using a by (simp add: steps_payload mapSteps_nth)
  show "\<forall>i < length stps.
         instruction (steps (buildTandoorPayload pf sf d) ! i) = step_text sf (stps ! i)"
    using a by (simp add: steps_payload mapSteps_nth)
next
  assume b: "(p_steps d = None \<or> p_steps d = Some []) \<and> p_ingredients d = Some is \<and> is \<noteq> []"
  then have "mapIngredients pf (p_ingredients d) \<noteq> []"
    using mapIngredients_length [of pf "is"] by auto
  then show "steps (buildTandoorPayload pf sf d) =
        [\<lparr>instruction = ''Prepare ingredients'',
          ingredients = mapIngredients pf (p_ingredients d),
          show_ingredients_table = None\<rparr>]"
    using b mapSteps_empty [of "mapIngredients pf (p_ingredients d)" "p_steps d" sf]
    by (simp add: steps_payload)
  show "length (mapIngredients pf (p_ingredients d)) = length is"
    using b by (simp add: mapIngredients_length)
qed

theorem ingredient_attachment_witness:
  "length (steps (buildTandoorPayload no_number empty_object pasta)) = 2 \<and>
   ingredients (steps (buildTandoorPayload no_number empty_object pasta) ! 0) =
     [\<lparr>food_name = ''salt'', unit_name = None, ing_amount = Num 0, ing_note = []\<rparr>,
      \<lparr>food_name = ''pasta'', unit_name = Some ''g'', ing_amount = Num 500, ing_note = []\<rparr>] \<and>
   ingredients (steps (buildTandoorPayload no_number empty_object pasta) ! 1) = [] \<and>
   steps (buildTandoorPayload no_number empty_object (pasta\<lparr>p_steps := None\<rparr>)) =
     [\<lparr>instruction = ''Prepare ingredients'',
       ingredients = [\<lparr>food_name = ''salt'', unit_name = None, ing_amount = Num 0, ing_note = []\<rparr>,
                      \<lparr>food_name = ''pasta'', unit_name = Some ''g'', ing_amount = Num 500, ing_note = []\<rparr>],
       show_ingredients_table = None\<rparr>]"
proof -
  have m: "mapIngredients no_number (p_ingredients pasta) =
      [\<lparr>food_name = ''salt'', unit_name = None, ing_amount = Num 0, ing_note = []\<rparr>,
       \<lparr>food_name = ''pasta'', unit_name = Some ''g'', ing_amount = Num 500, ing_note = []\<rparr>]"
    by (simp add: pasta_def mapIngredients_def truthy_def quantity_amount_def or_0_def falsy_def)
  have st: "p_steps pasta = Some [\<lparr>rs_instruction = Some ''Boil water'', rs_text = None\<rparr>,
                     \<lparr>rs_instruction = None, rs_text = Some ''Cook pasta''\<rparr>]"
    by (simp add: pasta_def)
  have ing: "p_ingredients pasta =
      Some [IngStr ''salt'', IngObj ''pasta'' (Some ''g'') (Some (QNum (Num 500)))]"
    by (simp add: pasta_def)
  show ?thesis
    using ingredient_attachment [of pasta
        "[\<lparr>rs_instruction = Some ''Boil water'', rs_text = None\<rparr>,
          \<lparr>rs_instruction = None, rs_text = Some ''Cook pasta''\<rparr>]"
        no_number empty_object
        "[IngStr ''salt'', IngObj ''pasta'' (Some ''g'') (Some (QNum (Num 500)))]"]
      ingredient_attachment [of "pasta\<lparr>p_steps := None\<rparr>" "[]" no_number empty_object
        "[IngStr ''salt'', IngObj ''pasta'' (Some ''g'') (Some (QNum (Num 500)))]"]
      m st ing
    by simp
qed


section \<open>Splitting a single step\<close>

lemma split_on_none: "c \<notin> set s \<Longrightarrow> split_on c s = [s]"
  by (induction s) auto

lemma split_on_piece: "c \<notin> set p \<Longrightarrow> split_on c (p @ c # r) = p # split_on c r"
  by (induction p) auto

lemma split_on_pieces:
  "\<forall>p \<in> set (ps @ [q]). c \<notin> set p \<Longrightarrow>
     split_on c (concat (map (\<lambda>p. p @ [c]) ps) @ q) = ps @ [q]"
  by (induction ps) (simp_all add: split_on_none split_on_piece)

lemma pieces_exist:
  "\<exists>ps q. s = concat (map (\<lambda>p. p @ [c]) ps) @ q \<and> (\<forall>p \<in> set (ps @ [q]). c \<notin> set p)"
proof (induction s)
  case Nil
  have "[] = concat (map (\<lambda>p. p @ [c]) []) @ [] \<and> (\<forall>p \<in> set ([] @ [[]]). c \<notin> set p)"
    by simp
  then show ?case by blast
next
  case (Cons x s)
  then obtain ps q where s: "s = concat (map (\<lambda>p. p @ [c]) ps) @ q"
    and n: "\<forall>p \<in> set (ps @ [q]). c \<notin> set p" by blast
  show ?case
  proof (cases "x = c")
    case True
    have "x # s = concat (map (\<lambda>p. p @ [c]) ([] # ps)) @ q \<and>
        (\<forall>p \<in> set (([] # ps) @ [q]). c \<notin> set p)"
      using True s n by simp
    then show ?thesis by blast
  next
    case False
    show ?thesis
    proof (cases ps)
      case Nil
      have "x # s = concat (map (\<lambda>p. p @ [c]) []) @ (x # q) \<and>
          (\<forall>p \<in> set ([] @ [x # q]). c \<notin> set p)"
        using False s n Nil by simp
      then show ?thesis by blast
    next
      case (Cons p ps')
      have "x # s = concat (map (\<lambda>p. p @ [c]) ((x # p) # ps')) @ q \<and>
          (\<forall>p \<in> set (((x # p) # ps') @ [q]). c \<notin> set p)"
        using False s n Cons by simp
      then show ?thesis by blast
    qed
  qed
qed

lemma pieces_separator:
  assumes "\<forall>p \<in> set (ps @ [q]). c \<notin> set p"
  shows "c \<in> set (concat (map (\<lambda>p. p @ [c]) ps) @ q) \<longleftrightarrow> ps \<noteq> []"
  using assms by (cases ps) auto

lemma step_lines_pieces:
  assumes "\<forall>p \<in> set (ps @ [q]). NL \<notin> set p"
  shows "step_lines (concat (map (\<lambda>p. p @ [NL]) ps) @ q) =
     filter (\<lambda>l. l \<noteq> []) (map trim (ps @ [q]))"
  using split_on_pieces [OF assms] by (simp add: step_lines_def)

lemma refine_unchanged:
  assumes "\<not> (\<exists>s ins. ss = [s] \<and> T_instruction s = Some ins \<and> NL \<in> set ins \<and>
              1 < length (step_lines ins))"
  shows "refineTandoorSteps (Some ss) = Some ss"
proof (cases "length ss = 1")
  case False
  then show ?thesis by (simp add: refineTandoorSteps_def)
next
  case True
  then obtain s where ss: "ss = [s]" by (cases ss) auto
  show ?thesis
  proof (cases "T_instruction s")
    case None
    then show ?thesis using ss by (simp add: refineTandoorSteps_def)
  next
    case (Some ins)
    with assms ss have "NL \<notin> set ins \<or> length (step_lines ins) \<le> 1" by auto
    then show ?thesis using ss Some by (auto simp: refineTandoorSteps_def Let_def)
  qed
qed

lemma refine_split:
  assumes "T_instruction s = Some ins" "NL \<in> set ins" "1 < length (step_lines ins)"
  shows "refineTandoorSteps (Some [s]) =
     Some (map (\<lambda>(index, line). refined_step s index line) (enumerate 0 (step_lines ins)))"
proof -
  have "ins \<noteq> []" using assms(2) by auto
  then show ?thesis using assms by (simp add: refineTandoorSteps_def Let_def)
qed

lemma refined_steps:
  fixes s :: "('i, 'z) T_scheme"
  assumes "1 < length ls"
  defines "out \<equiv> map (\<lambda>(index, line). refined_step s index line) (enumerate 0 ls)"
  shows "map T_instruction out = map Some ls"
    and "\<forall>i < length out. T.more (out ! i) = T.more s"
    and "T_ingredients (out ! 0) = T_ingredients s"
    and "T_show_ingredients_table (out ! 0) =
           Some (case T_show_ingredients_table s of None \<Rightarrow> True | Some b \<Rightarrow> b)"
    and "\<forall>i. 0 < i \<and> i < length out \<longrightarrow>
            T_ingredients (out ! i) = Some [] \<and> T_show_ingredients_table (out ! i) = Some False"
proof -
  have n: "out ! i = refined_step s i (ls ! i)" if "i < length ls" for i
    using that by (simp add: out_def nth_enumerate_eq)
  have l: "length out = length ls" by (simp add: out_def)
  have p0: "0 < length ls" using assms(1) by arith
  show "map T_instruction out = map Some ls"
    by (rule nth_equalityI) (simp_all add: l n refined_step_def)
  show "\<forall>i < length out. T.more (out ! i) = T.more s"
    by (simp add: l n refined_step_def)
  show "T_ingredients (out ! 0) = T_ingredients s"
    by (simp add: n [OF p0] refined_step_def)
  show "T_show_ingredients_table (out ! 0) =
           Some (case T_show_ingredients_table s of None \<Rightarrow> True | Some b \<Rightarrow> b)"
    by (simp add: n [OF p0] refined_step_def)
  show "\<forall>i. 0 < i \<and> i < length out \<longrightarrow>
            T_ingredients (out ! i) = Some [] \<and> T_show_ingredients_table (out ! i) = Some False"
    by (simp add: l n refined_step_def)
qed

text \<open>
  Claim C3.  An instruction is a sequence of pieces without line feed, each but the last
  followed by a line feed (\<open>ps\<close> and the last piece \<open>q\<close>; every string is of this form, in
  one way), and it contains a line feed exactly when there is more than one piece.  Its
  lines are the pieces trimmed, the empty ones left out, where trimming a piece removes
  the white space before and after it: the trimmed piece stands in the piece between two
  runs of white space and, when it is not empty, neither starts nor ends with white
  space.  A list of exactly one step whose instruction contains a line feed and has more
  than one line is replaced by one step for each line, in order, with the line as
  instruction and the other properties of the step copied; the first keeps the
  ingredients of the original step and its flag \<open>show_ingredients_table\<close>, true when the
  original has none, and every later step has the empty list of ingredients and the flag
  false.  Every other list is returned as it is: a single step without an instruction,
  without a line feed or with at most one line, and a list of no step or of two or more
  steps.  The import route applies this to the steps of the parsed recipe.
\<close>

theorem refineTandoorSteps_lines:
  "((\<forall>p \<in> set (ps @ [q]). NL \<notin> set p) \<and>
    T_instruction s = Some (concat (map (\<lambda>p. p @ [NL]) ps) @ q) \<longrightarrow>
      (NL \<in> set (concat (map (\<lambda>p. p @ [NL]) ps) @ q) \<longleftrightarrow> ps \<noteq> []) \<and>
      (ps \<noteq> [] \<and> 1 < length (filter (\<lambda>l. l \<noteq> []) (map trim (ps @ [q]))) \<longrightarrow>
         (\<exists>out. refineTandoorSteps (Some [s]) = Some out \<and>
            map T_instruction out = map Some (filter (\<lambda>l. l \<noteq> []) (map trim (ps @ [q]))) \<and>
            (\<forall>i < length out. T.more (out ! i) = T.more s) \<and>
            T_ingredients (out ! 0) = T_ingredients s \<and>
            T_show_ingredients_table (out ! 0) =
              Some (case T_show_ingredients_table s of None \<Rightarrow> True | Some b \<Rightarrow> b) \<and>
            (\<forall>i. 0 < i \<and> i < length out \<longrightarrow>
               T_ingredients (out ! i) = Some [] \<and>
               T_show_ingredients_table (out ! i) = Some False))) \<and>
      (ps = [] \<or> length (filter (\<lambda>l. l \<noteq> []) (map trim (ps @ [q]))) \<le> 1 \<longrightarrow>
         refineTandoorSteps (Some [s]) = Some [s])) \<and>
   (\<exists>ps q. ins = concat (map (\<lambda>p. p @ [NL]) ps) @ q \<and> (\<forall>p \<in> set (ps @ [q]). NL \<notin> set p)) \<and>
   (\<exists>a b. t = a @ trim t @ b \<and> list_all is_space a \<and> list_all is_space b) \<and>
   (trim t \<noteq> [] \<longrightarrow> \<not> is_space (hd (trim t)) \<and> \<not> is_space (last (trim t))) \<and>
   (T_instruction s = None \<longrightarrow> refineTandoorSteps (Some [s]) = Some [s]) \<and>
   (length ss \<noteq> 1 \<longrightarrow> refineTandoorSteps (Some ss) = Some ss) \<and>
   refineTandoorSteps (None :: ('i, 'z) T_scheme list option) = None \<and>
   import_refine (Some ss) = refineTandoorSteps (Some ss)"
proof (intro conjI impI)
  let ?ins = "concat (map (\<lambda>p. p @ [NL]) ps) @ q"
  let ?lines = "filter (\<lambda>l. l \<noteq> []) (map trim (ps @ [q]))"
  {
    assume a: "(\<forall>p \<in> set (ps @ [q]). NL \<notin> set p) \<and> T_instruction s = Some ?ins"
    then have n: "\<forall>p \<in> set (ps @ [q]). NL \<notin> set p" and i: "T_instruction s = Some ?ins"
      by blast+
    have sl: "step_lines ?ins = ?lines" by (rule step_lines_pieces [OF n])
    show nl: "NL \<in> set ?ins \<longleftrightarrow> ps \<noteq> []" by (rule pieces_separator [OF n])
    {
      assume b: "ps \<noteq> [] \<and> 1 < length ?lines"
      then have l: "1 < length ?lines" by blast
      have "refineTandoorSteps (Some [s]) =
          Some (map (\<lambda>(index, line). refined_step s index line) (enumerate 0 ?lines))"
        using refine_split [OF i] nl b sl by simp
      then show "\<exists>out. refineTandoorSteps (Some [s]) = Some out \<and>
            map T_instruction out = map Some ?lines \<and>
            (\<forall>i < length out. T.more (out ! i) = T.more s) \<and>
            T_ingredients (out ! 0) = T_ingredients s \<and>
            T_show_ingredients_table (out ! 0) =
              Some (case T_show_ingredients_table s of None \<Rightarrow> True | Some b \<Rightarrow> b) \<and>
            (\<forall>i. 0 < i \<and> i < length out \<longrightarrow>
               T_ingredients (out ! i) = Some [] \<and>
               T_show_ingredients_table (out ! i) = Some False)"
        using refined_steps [OF l, of s] by blast
    }
    {
      assume "ps = [] \<or> length ?lines \<le> 1"
      then have "\<not> (NL \<in> set ?ins \<and> 1 < length (step_lines ?ins))"
        using nl sl by auto
      then show "refineTandoorSteps (Some [s]) = Some [s]"
        using i by (intro refine_unchanged) auto
    }
  }
  show "\<exists>ps q. ins = concat (map (\<lambda>p. p @ [NL]) ps) @ q \<and> (\<forall>p \<in> set (ps @ [q]). NL \<notin> set p)"
    by (rule pieces_exist)
  show "\<exists>a b. t = a @ trim t @ b \<and> list_all is_space a \<and> list_all is_space b"
    by (rule trim_decomp)
  show "\<not> is_space (hd (trim t))" "\<not> is_space (last (trim t))" if "trim t \<noteq> []"
    using trim_ends [OF that] by blast+
  show "refineTandoorSteps (Some [s]) = Some [s]" if "T_instruction s = None"
    using that by (intro refine_unchanged) auto
  show "refineTandoorSteps (Some ss) = Some ss" if "length ss \<noteq> 1"
    using that by (intro refine_unchanged) auto
  show "refineTandoorSteps (None :: ('i, 'z) T_scheme list option) = None"
    by (simp add: refineTandoorSteps_def)
  show "import_refine (Some ss) = refineTandoorSteps (Some ss)"
    by (simp add: import_refine_def)
qed

theorem refineTandoorSteps_lines_witness:
  "(\<exists>out. refineTandoorSteps (Some [giant]) = Some out \<and>
      map T_instruction out = [Some ''Chop onions'', Some ''Fry onions'', Some ''Serve''] \<and>
      T_ingredients (out ! 0) = Some [''onion''] \<and>
      T_show_ingredients_table (out ! 0) = Some True \<and>
      T_ingredients (out ! 1) = Some [] \<and> T_show_ingredients_table (out ! 1) = Some False \<and>
      T_ingredients (out ! 2) = Some [] \<and> T_show_ingredients_table (out ! 2) = Some False) \<and>
   refineTandoorSteps (Some [blank]) = Some [blank] \<and>
   refineTandoorSteps (Some [plain]) = Some [plain] \<and>
   refineTandoorSteps (Some [giant, plain]) = Some [giant, plain]"
proof -
  let ?ps = "[''  Chop onions '', [], CHR 0x09 # ''Fry onions'' @ [CHR 0x0D], ''  '']"
  note giant_split = refineTandoorSteps_lines [of ?ps "''Serve ''" giant "[]" "[]" "[giant, plain]"]
  note blank_kept = refineTandoorSteps_lines [of "[''Serve'', ''  '']" "[]" blank "[]" "[]" "[]"]
  note plain_kept =
    refineTandoorSteps_lines [of "[]" "''Chop onions and fry them''" plain "[]" "[]" "[]"]
  have g: "T_ingredients giant = Some [''onion'']" "T_show_ingredients_table giant = None"
    by (simp_all add: giant_def)
  have t: "trim ''  Chop onions '' = ''Chop onions''" "trim [] = []"
    "trim (CHR 0x09 # ''Fry onions'' @ [CHR 0x0D]) = ''Fry onions''" "trim ''  '' = []"
    "trim ''Serve '' = ''Serve''" "trim ''Serve'' = ''Serve''"
    by (simp_all add: trim_def is_space_def)
  have lg: "filter (\<lambda>l. l \<noteq> []) (map trim (?ps @ [''Serve ''])) =
      [''Chop onions'', ''Fry onions'', ''Serve'']"
    using t by simp
  have h1: "(\<forall>p \<in> set (?ps @ [''Serve '']). NL \<notin> set p) \<and>
      T_instruction giant = Some (concat (map (\<lambda>p. p @ [NL]) ?ps) @ ''Serve '')"
    by (simp add: giant_def NL_def)
  have h2: "?ps \<noteq> [] \<and> 1 < length (filter (\<lambda>l. l \<noteq> []) (map trim (?ps @ [''Serve ''])))"
    unfolding lg by simp
  note e = giant_split [THEN conjunct1, THEN mp, OF h1, THEN conjunct2, THEN conjunct1, THEN mp,
      OF h2]
  obtain out where o: "refineTandoorSteps (Some [giant]) = Some out"
    "map T_instruction out = [Some ''Chop onions'', Some ''Fry onions'', Some ''Serve'']"
    "T_ingredients (out ! 0) = Some [''onion'']" "T_show_ingredients_table (out ! 0) = Some True"
    "\<forall>i. 0 < i \<and> i < length out \<longrightarrow>
            T_ingredients (out ! i) = Some [] \<and> T_show_ingredients_table (out ! i) = Some False"
    using e unfolding lg g by auto
  have "length (map T_instruction out) = 3" unfolding o(2) by simp
  then have l: "length out = 3" by simp
  have rest: "T_ingredients (out ! 1) = Some []" "T_show_ingredients_table (out ! 1) = Some False"
    "T_ingredients (out ! 2) = Some []" "T_show_ingredients_table (out ! 2) = Some False"
    using o(5) l by simp_all
  have h3: "length [giant, plain] \<noteq> 1" by simp
  note two = giant_split [THEN conjunct2, THEN conjunct2, THEN conjunct2, THEN conjunct2,
      THEN conjunct2, THEN conjunct1, THEN mp, OF h3]
  have h4: "(\<forall>p \<in> set ([''Serve'', ''  ''] @ [[]]). NL \<notin> set p) \<and>
      T_instruction blank = Some (concat (map (\<lambda>p. p @ [NL]) [''Serve'', ''  '']) @ [])"
    by (simp add: blank_def NL_def)
  have h5: "[''Serve'', ''  ''] = [] \<or>
      length (filter (\<lambda>l. l \<noteq> []) (map trim ([''Serve'', ''  ''] @ [[]]))) \<le> 1"
    using t by simp
  note one = blank_kept [THEN conjunct1, THEN mp, OF h4, THEN conjunct2, THEN conjunct2, THEN mp,
      OF h5]
  have h6: "(\<forall>p \<in> set ([] @ [''Chop onions and fry them'']). NL \<notin> set p) \<and>
      T_instruction plain =
        Some (concat (map (\<lambda>p. p @ [NL]) []) @ ''Chop onions and fry them'')"
    by (simp add: plain_def NL_def)
  have h7: "([] :: string list) = [] \<or>
      length (filter (\<lambda>l. l \<noteq> []) (map trim ([] @ [''Chop onions and fry them'']))) \<le> 1"
    by simp
  note none = plain_kept [THEN conjunct1, THEN mp, OF h6, THEN conjunct2, THEN conjunct2, THEN mp,
      OF h7]
  show ?thesis
    by (intro conjI exI [of _ out]) (rule o(1-4) rest one none two)+
qed

section \<open>The cleaned token and the header built from it\<close>

text \<open>
  Claim C9, evaluated where it fails.  The pattern is anchored at the start of the token
  and the token is trimmed only afterwards: a token with white space before its one
  scheme prefix keeps the prefix, cleaning it a second time gives another result, and the
  header the client builds from it names two schemes.
\<close>

theorem cleanAuthToken_leading_space:
  "cleanAuthToken '' Bearer abc'' = ''Bearer abc'' \<and>
   cleanAuthToken (cleanAuthToken '' Bearer abc'') = ''abc'' \<and>
   cleanAuthToken (CHR 0xA0 # ''Bearer abc'') = ''Bearer abc'' \<and>
   getAuthHeader (new_TandoorClient
      \<lparr>config_baseUrl = ''https://tandoor.test/'', config_token = '' Bearer abc''\<rparr>) =
     ''Token Bearer abc''"
  by (simp add: cleanAuthToken_def scheme_match_def ci_prefix_def upper_def trim_def is_space_def
      getAuthHeader_def new_TandoorClient_def)


text \<open>
  Without that leading white space the claim holds: a token that does not start with
  white space and carries at most one prefix is cleaned to a token without prefix, and
  cleaning it again changes nothing.
\<close>

lemma ci_prefix_append: "ci_prefix p a \<Longrightarrow> ci_prefix p (a @ ws)"
  by (simp add: ci_prefix_def)

lemma scheme_match_append:
  assumes "scheme_match a \<noteq> None"
  shows "scheme_match (a @ ws) \<noteq> None"
proof -
  have k: "ci_prefix p (a @ ws) \<and> drop n (a @ ws) \<noteq> [] \<and> is_space (hd (drop n (a @ ws)))"
    if "ci_prefix p a" "drop n a \<noteq> []" "is_space (hd (drop n a))" for p n
    using that by (simp add: ci_prefix_append)
  from assms consider
      "ci_prefix ''Bearer'' a" "drop 6 a \<noteq> []" "is_space (hd (drop 6 a))"
    | "ci_prefix ''Token'' a" "drop 5 a \<noteq> []" "is_space (hd (drop 5 a))"
    unfolding scheme_match_def by (auto split: if_splits)
  then show ?thesis
  proof cases
    case 1
    from k [OF 1] show ?thesis unfolding scheme_match_def by simp
  next
    case 2
    from k [OF 2] show ?thesis unfolding scheme_match_def by simp
  qed
qed

lemma scheme_match_rest:
  assumes "scheme_match t = Some r"
  shows "r = [] \<or> \<not> is_space (hd r)"
proof -
  from assms have "r = dropWhile is_space (drop 6 t) \<or> r = dropWhile is_space (drop 5 t)"
    unfolding scheme_match_def by (auto split: if_splits)
  then show ?thesis
    using no_lead_dropWhile [of "drop 6 t"] no_lead_dropWhile [of "drop 5 t"] by blast
qed

lemma cleanAuthToken_single_prefix:
  assumes lead: "t = [] \<or> \<not> is_space (hd t)"
    and one: "\<forall>r. scheme_match t = Some r \<longrightarrow> scheme_match r = None"
  shows "scheme_match (cleanAuthToken t) = None \<and>
     cleanAuthToken (cleanAuthToken t) = cleanAuthToken t"
proof -
  define r where "r = (case scheme_match t of None \<Rightarrow> t | Some x \<Rightarrow> x)"
  have nl: "r = [] \<or> \<not> is_space (hd r)"
    using lead scheme_match_rest [of t] by (auto simp: r_def split: option.splits)
  have sm: "scheme_match r = None"
    using one by (auto simp: r_def split: option.splits)
  have c: "cleanAuthToken t = rtrim r"
    using nl by (simp add: cleanAuthToken_def r_def [symmetric] trim_no_lead)
  obtain ws where ws: "r = rtrim r @ ws" using rtrim_decomp by blast
  have n: "scheme_match (rtrim r) = None"
  proof (rule ccontr)
    assume "scheme_match (rtrim r) \<noteq> None"
    then have "scheme_match (rtrim r @ ws) \<noteq> None" by (rule scheme_match_append)
    then have "scheme_match r \<noteq> None" unfolding ws [symmetric] .
    then show False using sm by simp
  qed
  have "cleanAuthToken (rtrim r) = rtrim r"
    using n nl by (simp add: cleanAuthToken_def trim_rtrim)
  then show ?thesis using c n by simp
qed


section \<open>The authentication fallback\<close>

lemma auth_header:
  "map_of (req_headers (makeRequest c url opts scheme)) ''Authorization'' =
     Some (scheme_name scheme @ '' '' @ token c)"
  by (simp add: makeRequest_def update_conv')

lemma makeRequest_authScheme:
  "makeRequest (c\<lparr>authScheme := a\<rparr>) url opts scheme = makeRequest c url opts scheme"
  by (simp add: makeRequest_def)

lemma fallback_cases:
  "fetchWithAuthFallback srv url opts (c, lg) =
     (case srv lg (makeRequest c url opts Token) of
        Rejected msg \<Rightarrow> (Inl (NetworkFailure msg), c, lg @ [makeRequest c url opts Token])
      | Resolved r \<Rightarrow>
          if resp_status r = 401 \<or> resp_status r = 403
          then ((case srv (lg @ [makeRequest c url opts Token]) (makeRequest c url opts Bearer) of
                   Rejected msg \<Rightarrow> Inl (NetworkFailure msg)
                 | Resolved r2 \<Rightarrow> Inr (r2, Bearer)),
                c\<lparr>authScheme := Bearer\<rparr>,
                lg @ [makeRequest c url opts Token, makeRequest c url opts Bearer])
          else (Inr (r, Token), c\<lparr>authScheme := Token\<rparr>, lg @ [makeRequest c url opts Token]))"
  by (simp add: fetchWithAuthFallback_def fetch_def Let_def makeRequest_authScheme
      split: fetch_outcome.splits)

lemma fallback_log:
  "\<exists>more. snd (snd (fetchWithAuthFallback srv url opts (c, lg))) =
       lg @ makeRequest c url opts Token # more \<and> length more \<le> 1"
  by (simp add: fallback_cases split: fetch_outcome.splits)

lemma fallback_token: "token (fst (snd (fetchWithAuthFallback srv url opts (c, lg)))) = token c"
  by (simp add: fallback_cases split: fetch_outcome.splits)

lemma create_state:
  assumes "buildUrl pl c ''/api/recipe/'' = Url u"
  shows "snd (createRecipe pl srv recipe (c, lg)) =
     snd (fetchWithAuthFallback srv u
        \<lparr>opt_method = ''POST'',
         opt_headers = [(''Content-Type'', ''application/json''), (''Accept'', ''application/json'')],
         opt_body = Json (JSON_stringify pl recipe)\<rparr> (c, lg))"
proof -
  obtain res st' where f: "fetchWithAuthFallback srv u
        \<lparr>opt_method = ''POST'',
         opt_headers = [(''Content-Type'', ''application/json''), (''Accept'', ''application/json'')],
         opt_body = Json (JSON_stringify pl recipe)\<rparr> (c, lg) = (res, st')"
    by (cases "fetchWithAuthFallback srv u
        \<lparr>opt_method = ''POST'',
         opt_headers = [(''Content-Type'', ''application/json''), (''Accept'', ''application/json'')],
         opt_body = Json (JSON_stringify pl recipe)\<rparr> (c, lg)") auto
  show ?thesis
  proof (cases res)
    case (Inl e)
    then show ?thesis using assms f by (simp add: createRecipe_def)
  next
    case (Inr p)
    then show ?thesis using assms f
      by (cases p) (simp add: createRecipe_def split: option.splits)
  qed
qed

lemma upload_log:
  "\<exists>more. snd (uploadImageFromUrl pl srv rid img (c, lg)) =
       (c, lg @ \<lparr>req_url = img, req_method = ''GET'', req_headers = [], req_body = NoBody\<rparr> # more) \<and>
     (more = [] \<or> (\<exists>u b. more = [\<lparr>req_url = u, req_method = ''PUT'',
          req_headers = [(''Authorization'', getAuthHeader c)], req_body = b\<rparr>]))"
proof (cases "srv lg \<lparr>req_url = img, req_method = ''GET'', req_headers = [], req_body = NoBody\<rparr>")
  case (Rejected msg)
  then show ?thesis by (simp add: uploadImageFromUrl_def fetch_def)
next
  case (Resolved imageResponse)
  show ?thesis
  proof (cases "ok imageResponse")
    case False
    then show ?thesis using Resolved by (simp add: uploadImageFromUrl_def fetch_def)
  next
    case True
    show ?thesis
    proof (cases "buildUrl pl c (''/api/recipe/'' @ ToString pl rid @ ''/image/'')")
      case (Throws msg)
      then show ?thesis using Resolved True by (simp add: uploadImageFromUrl_def fetch_def)
    next
      case (Url uploadUrl)
      then show ?thesis using Resolved True
        by (simp add: uploadImageFromUrl_def fetch_def split: fetch_outcome.splits)
    qed
  qed
qed

lemma new_client: "fresh_client = \<lparr>baseUrl = ''https://tandoor.test'', token = ''secret'', authScheme = Token\<rparr>"
  by (simp add: fresh_client_def new_TandoorClient_def strip_trailing_slash_def cleanAuthToken_def
      scheme_match_def ci_prefix_def upper_def trim_def is_space_def)

lemma first_create_eval:
  "first_create =
     (Inr \<lparr>data = Some (), error = None, status = 201\<rparr>,
      \<lparr>baseUrl = ''https://tandoor.test'', token = ''secret'', authScheme = Bearer\<rparr>,
      [\<lparr>req_url = ''https://tandoor.test/api/recipe/'', req_method = ''POST'',
        req_headers = [(''Content-Type'', ''application/json''), (''Accept'', ''application/json''),
                       (''Authorization'', ''Token secret'')],
        req_body = Json ''{}''\<rparr>,
       \<lparr>req_url = ''https://tandoor.test/api/recipe/'', req_method = ''POST'',
        req_headers = [(''Content-Type'', ''application/json''), (''Accept'', ''application/json''),
                       (''Authorization'', ''Bearer secret'')],
        req_body = Json ''{}''\<rparr>])"
  by (simp add: first_create_def new_client createRecipe_def buildUrl_def test_platform_def
      fallback_cases mock_server_def makeRequest_def ok_def)

lemma second_create_eval:
  "snd (snd second_create) = snd (snd first_create) @
      [\<lparr>req_url = ''https://tandoor.test/api/recipe/'', req_method = ''POST'',
        req_headers = [(''Content-Type'', ''application/json''), (''Accept'', ''application/json''),
                       (''Authorization'', ''Token secret'')],
        req_body = Json ''{}''\<rparr>,
       \<lparr>req_url = ''https://tandoor.test/api/recipe/'', req_method = ''POST'',
        req_headers = [(''Content-Type'', ''application/json''), (''Accept'', ''application/json''),
                       (''Authorization'', ''Bearer secret'')],
        req_body = Json ''{}''\<rparr>]"
  by (simp add: second_create_def first_create_eval createRecipe_def buildUrl_def test_platform_def
      fallback_cases mock_server_def makeRequest_def ok_def)

text \<open>
  Claim C1, as the code has it.  A service that answers 401 to \<open>Token\<close> and 201 to \<open>Bearer\<close>:
  the first \<open>createRecipe\<close> succeeds on its second attempt and leaves \<open>Bearer\<close> as the
  scheme of the client.  The claim says that the second \<open>createRecipe\<close> on the same client
  starts with the remembered scheme; its first request (the third of the log) is sent
  with \<open>Token\<close>.
\<close>

theorem remembered_scheme_counterexample:
  "fst first_create = Inr \<lparr>data = Some (), error = None, status = 201\<rparr> \<and>
   length (snd (snd first_create)) = 2 \<and>
   authScheme (fst (snd first_create)) = Bearer \<and>
   getAuthHeader (fst (snd first_create)) = ''Bearer secret'' \<and>
   map_of (req_headers (snd (snd second_create) ! 2)) ''Authorization'' = Some ''Token secret''"
  by (simp add: second_create_eval) (simp add: first_create_eval getAuthHeader_def)

text \<open>
  Claim C1, amended.  Every request made through \<open>fetchWithAuthFallback\<close> is first issued
  with the scheme \<open>Token\<close>, whatever scheme the client holds.  When the answer is 401 or 403
  the same request is issued once more with \<open>Bearer\<close> and the client's scheme becomes
  \<open>Bearer\<close>; on any other answer nothing more is sent and the scheme becomes \<open>Token\<close>; when
  the call rejects the client is unchanged.  So every \<open>createRecipe\<close> sends one or two
  requests, the first with \<open>Token\<close> and the client's token.  The scheme the client holds is
  the one an image upload sends with its \<open>PUT\<close>, the upload leaving the client as it is.
\<close>

theorem token_first_fallback:
  "(\<exists>more. snd (snd (fetchWithAuthFallback srv url opts (c, lg))) =
             lg @ makeRequest c url opts Token # more \<and>
      (case srv lg (makeRequest c url opts Token) of
         Rejected msg \<Rightarrow>
           more = [] \<and> fst (snd (fetchWithAuthFallback srv url opts (c, lg))) = c
       | Resolved r \<Rightarrow>
           if resp_status r = 401 \<or> resp_status r = 403
           then more = [makeRequest c url opts Bearer] \<and>
                fst (snd (fetchWithAuthFallback srv url opts (c, lg))) = c\<lparr>authScheme := Bearer\<rparr>
           else more = [] \<and>
                fst (snd (fetchWithAuthFallback srv url opts (c, lg))) = c\<lparr>authScheme := Token\<rparr>)) \<and>
   map_of (req_headers (makeRequest c url opts scheme)) ''Authorization'' =
     Some (scheme_name scheme @ '' '' @ token c) \<and>
   (buildUrl pl c ''/api/recipe/'' = Url u \<longrightarrow>
      (\<exists>req more. snd (snd (createRecipe pl srv recipe (c, lg))) = lg @ req # more \<and>
         length more \<le> 1 \<and>
         map_of (req_headers req) ''Authorization'' = Some (''Token '' @ token c))) \<and>
   (\<exists>more. snd (uploadImageFromUrl pl srv rid img (c, lg)) =
        (c, lg @ \<lparr>req_url = img, req_method = ''GET'', req_headers = [],
                  req_body = NoBody\<rparr> # more) \<and>
      (more = [] \<or>
       (\<exists>u b. more = [\<lparr>req_url = u, req_method = ''PUT'',
                        req_headers = [(''Authorization'',
                                        scheme_name (authScheme c) @ '' '' @ token c)],
                        req_body = b\<rparr>])))"
proof (intro conjI impI)
  show "\<exists>more. snd (snd (fetchWithAuthFallback srv url opts (c, lg))) =
             lg @ makeRequest c url opts Token # more \<and>
      (case srv lg (makeRequest c url opts Token) of
         Rejected msg \<Rightarrow>
           more = [] \<and> fst (snd (fetchWithAuthFallback srv url opts (c, lg))) = c
       | Resolved r \<Rightarrow>
           if resp_status r = 401 \<or> resp_status r = 403
           then more = [makeRequest c url opts Bearer] \<and>
                fst (snd (fetchWithAuthFallback srv url opts (c, lg))) = c\<lparr>authScheme := Bearer\<rparr>
           else more = [] \<and>
                fst (snd (fetchWithAuthFallback srv url opts (c, lg))) = c\<lparr>authScheme := Token\<rparr>)"
    by (simp add: fallback_cases split: fetch_outcome.splits)
  show "map_of (req_headers (makeRequest c url opts scheme)) ''Authorization'' =
     Some (scheme_name scheme @ '' '' @ token c)"
    by (rule auth_header)
  show "\<exists>req more. snd (snd (createRecipe pl srv recipe (c, lg))) = lg @ req # more \<and>
         length more \<le> 1 \<and>
         map_of (req_headers req) ''Authorization'' = Some (''Token '' @ token c)"
    if "buildUrl pl c ''/api/recipe/'' = Url u"
    using fallback_log [of srv u _ c lg] auth_header [of c u _ Token]
    by (fastforce simp: create_state [OF that])
  show "\<exists>more. snd (uploadImageFromUrl pl srv rid img (c, lg)) =
        (c, lg @ \<lparr>req_url = img, req_method = ''GET'', req_headers = [],
                  req_body = NoBody\<rparr> # more) \<and>
      (more = [] \<or>
       (\<exists>u b. more = [\<lparr>req_url = u, req_method = ''PUT'',
                        req_headers = [(''Authorization'',
                                        scheme_name (authScheme c) @ '' '' @ token c)],
                        req_body = b\<rparr>]))"
    using upload_log [of pl srv rid img c lg] by (simp add: getAuthHeader_def)
qed

theorem token_first_fallback_witness:
  "authScheme (fst (snd first_create)) = Bearer \<and>
   buildUrl test_platform (fst (snd first_create)) ''/api/recipe/'' =
     Url ''https://tandoor.test/api/recipe/'' \<and>
   (\<exists>req more. snd (snd second_create) = snd (snd first_create) @ req # more \<and>
      length more \<le> 1 \<and>
      map_of (req_headers req) ''Authorization'' = Some ''Token secret'')"
proof -
  have b: "buildUrl test_platform (fst (snd first_create)) ''/api/recipe/'' =
     Url ''https://tandoor.test/api/recipe/''"
    by (simp add: first_create_eval buildUrl_def test_platform_def)
  have t: "token (fst (snd first_create)) = ''secret''"
    and a: "authScheme (fst (snd first_create)) = Bearer"
    by (simp_all add: first_create_eval)
  have s: "second_create = createRecipe test_platform mock_server ()
      (fst (snd first_create), snd (snd first_create))"
    by (simp add: second_create_def)
  show ?thesis
    using token_first_fallback [of mock_server _ _ "fst (snd first_create)"
        "snd (snd first_create)" _ test_platform "''https://tandoor.test/api/recipe/''" "()"]
      a b t s
    by simp
qed


section \<open>Cleaning a wrapped response\<close>

lemma remove_all_head:
  assumes "c \<notin> set pat"
  shows "remove_all pat (c # r) = c # remove_all pat r"
proof -
  have "\<not> (pat \<noteq> [] \<and> take (length pat) (c # r) = pat)"
    using assms by (cases pat) auto
  then show ?thesis by auto
qed

lemma take_append_le: "n \<le> length a \<Longrightarrow> take n (a @ b) = take n a"
  by simp

lemma drop_append_le: "n \<le> length a \<Longrightarrow> drop n (a @ b) = drop n a @ b"
  by simp

lemma take_append_gt: "length a < n \<Longrightarrow> take n (a @ c # r) = a @ c # take (n - Suc (length a)) r"
  by (simp add: take_Cons')

lemma remove_all_boundary:
  "c \<notin> set pat \<Longrightarrow> remove_all pat (a @ c # r) = remove_all pat a @ c # remove_all pat r"
proof (induction pat a rule: remove_all.induct)
  case (1 pat)
  then show ?case by (simp add: remove_all_head del: remove_all.simps(2))
next
  case (2 pat x xs)
  let ?n = "length pat"
  show ?case
  proof (cases "pat \<noteq> [] \<and> take ?n (x # xs) = pat")
    case True
    then have "length (take ?n (x # xs)) = ?n"
      by (simp only:)
    then have le: "?n \<le> length (x # xs)"
      by simp
    have t: "take ?n (x # (xs @ c # r)) = pat"
      using take_append_le [OF le, of "c # r"] True by simp
    have d: "drop ?n (x # (xs @ c # r)) = drop ?n (x # xs) @ c # r"
      using drop_append_le [OF le, of "c # r"] by simp
    have e1: "remove_all pat (x # (xs @ c # r)) = remove_all pat (drop ?n (x # xs) @ c # r)"
      using True t d by (simp only: remove_all.simps if_True simp_thms)
    have e2: "remove_all pat (drop ?n (x # xs) @ c # r) =
        remove_all pat (drop ?n (x # xs)) @ c # remove_all pat r"
      using 2(1) [OF True 2(3)] .
    have e3: "remove_all pat (x # xs) = remove_all pat (drop ?n (x # xs))"
      using True by (simp only: remove_all.simps if_True simp_thms)
    show ?thesis
      unfolding append_Cons e1 e2 e3 ..
  next
    case False
    have nm: "\<not> (pat \<noteq> [] \<and> take ?n (x # (xs @ c # r)) = pat)"
    proof
      assume m: "pat \<noteq> [] \<and> take ?n (x # (xs @ c # r)) = pat"
      show False
      proof (cases "?n \<le> length (x # xs)")
        case True
        then show False using m False take_append_le [OF True, of "c # r"] by simp
      next
        case gt: False
        then have "take ?n ((x # xs) @ c # r) = (x # xs) @ c # take (?n - Suc (length (x # xs))) r"
          by (intro take_append_gt) simp
        then have "c \<in> set (take ?n (x # (xs @ c # r)))" by simp
        then show False using m 2(3) by simp
      qed
    qed
    have e1: "remove_all pat (x # (xs @ c # r)) = x # remove_all pat (xs @ c # r)"
      using nm by (simp only: remove_all.simps if_False simp_thms)
    have e2: "remove_all pat (xs @ c # r) = remove_all pat xs @ c # remove_all pat r"
      using 2(2) [OF False 2(3)] .
    have e3: "remove_all pat (x # xs) = x # remove_all pat xs"
      using False by (simp only: remove_all.simps if_False simp_thms)
    show ?thesis
      unfolding append_Cons e1 e2 e3 ..
  qed
qed

lemma set_remove_all: "set (remove_all pat s) \<subseteq> set s"
proof (induction pat s rule: remove_all.induct)
  case (1 pat)
  then show ?case by simp
next
  case (2 pat x xs)
  show ?case
  proof (cases "pat \<noteq> [] \<and> take (length pat) (x # xs) = pat")
    case True
    then have "set (remove_all pat (x # xs)) \<subseteq> set (drop (length pat) (x # xs))"
      using 2 by simp
    then show ?thesis using set_drop_subset by fast
  next
    case False
    then show ?thesis using 2 by auto
  qed
qed

lemma remove_all_braced:
  assumes "CHR ''{'' \<notin> set pat" "CHR ''}'' \<notin> set pat"
  shows "remove_all pat (X @ CHR ''{'' # mid @ CHR ''}'' # Y) =
     remove_all pat X @ CHR ''{'' # remove_all pat mid @ CHR ''}'' # remove_all pat Y"
  using assms by (simp add: remove_all_boundary)

lemma from_first_brace_skip:
  "CHR ''{'' \<notin> set X \<Longrightarrow> from_first_brace (X @ CHR ''{'' # r) = CHR ''{'' # r"
proof -
  assume "CHR ''{'' \<notin> set X"
  then have "dropWhile (\<lambda>c. c \<noteq> CHR ''{'') (X @ CHR ''{'' # r) =
      dropWhile (\<lambda>c. c \<noteq> CHR ''{'') (CHR ''{'' # r)"
    by (intro dropWhile_append2) auto
  then show ?thesis by (simp add: from_first_brace_def)
qed

lemma to_last_brace_cut:
  "CHR ''}'' \<notin> set Y \<Longrightarrow> to_last_brace (l @ CHR ''}'' # Y) = l @ ''}''"
proof -
  assume "CHR ''}'' \<notin> set Y"
  then have "dropWhile (\<lambda>c. c \<noteq> CHR ''}'') (rev Y @ CHR ''}'' # rev l) =
      dropWhile (\<lambda>c. c \<noteq> CHR ''}'') (CHR ''}'' # rev l)"
    by (intro dropWhile_append2) auto
  then show ?thesis by (simp add: to_last_brace_def)
qed

lemma trim_braced: "trim (CHR ''{'' # m @ ''}'') = CHR ''{'' # m @ ''}''"
  by (simp add: trim_def is_space_def)

lemma clean_between:
  assumes "CHR ''{'' \<notin> set X" "CHR ''}'' \<notin> set Y"
  shows "cleanJsonResponse (X @ CHR ''{'' # mid @ CHR ''}'' # Y) =
     CHR ''{'' # remove_all ''```'' (remove_all ''```json'' mid) @ ''}''"
proof -
  let ?r = "\<lambda>s. remove_all ''```'' (remove_all ''```json'' s)"
  have r: "?r (X @ CHR ''{'' # mid @ CHR ''}'' # Y) = ?r X @ CHR ''{'' # ?r mid @ CHR ''}'' # ?r Y"
    by (simp add: remove_all_braced)
  have x: "CHR ''{'' \<notin> set (?r X)" and y: "CHR ''}'' \<notin> set (?r Y)"
    using assms order_trans [OF set_remove_all set_remove_all, of "''```''" "''```json''"]
    by blast+
  have "to_last_brace (from_first_brace (?r (X @ CHR ''{'' # mid @ CHR ''}'' # Y))) =
      CHR ''{'' # ?r mid @ ''}''"
    unfolding r using from_first_brace_skip [OF x] to_last_brace_cut [OF y, of "CHR ''{'' # ?r mid"]
    by simp
  then show ?thesis
    by (simp add: cleanJsonResponse_def trim_braced)
qed

text \<open>
  Claim C8, amended.  Take a text that starts with an opening and ends with a closing
  brace, and wrap it: prose without an opening brace, the fence \<open>```json\<close> and a line feed
  before it, a line feed, the fence \<open>```\<close> and prose without a closing brace after it.
  Cleaning the wrapped text and cleaning the text itself give the same string, and so the
  same parsed object.
\<close>

theorem clean_wrapped:
  "CHR ''{'' \<notin> set p \<and> CHR ''}'' \<notin> set q \<longrightarrow>
     cleanJsonResponse (p @ ''```json'' @ [NL] @ (CHR ''{'' # mid @ ''}'') @ [NL] @ ''```'' @ q) =
       cleanJsonResponse (CHR ''{'' # mid @ ''}'') \<and>
     JSON_parse lib
        (cleanJsonResponse (p @ ''```json'' @ [NL] @ (CHR ''{'' # mid @ ''}'') @ [NL] @ ''```'' @ q)) =
       JSON_parse lib (cleanJsonResponse (CHR ''{'' # mid @ ''}''))"
proof
  assume a: "CHR ''{'' \<notin> set p \<and> CHR ''}'' \<notin> set q"
  have x: "CHR ''{'' \<notin> set (p @ ''```json'' @ [NL])" using a by (simp add: NL_def)
  have y: "CHR ''}'' \<notin> set ([NL] @ ''```'' @ q)" using a by (simp add: NL_def)
  have "cleanJsonResponse ((p @ ''```json'' @ [NL]) @ CHR ''{'' # mid @ CHR ''}'' # ([NL] @ ''```'' @ q)) =
      cleanJsonResponse ([] @ CHR ''{'' # mid @ CHR ''}'' # [])"
    unfolding clean_between [OF x y] by (subst clean_between) simp_all
  then have "cleanJsonResponse (p @ ''```json'' @ [NL] @ (CHR ''{'' # mid @ ''}'') @ [NL] @ ''```'' @ q) =
       cleanJsonResponse (CHR ''{'' # mid @ ''}'')"
    by simp
  then show "cleanJsonResponse (p @ ''```json'' @ [NL] @ (CHR ''{'' # mid @ ''}'') @ [NL] @ ''```'' @ q) =
       cleanJsonResponse (CHR ''{'' # mid @ ''}'') \<and>
     JSON_parse lib
        (cleanJsonResponse (p @ ''```json'' @ [NL] @ (CHR ''{'' # mid @ ''}'') @ [NL] @ ''```'' @ q)) =
       JSON_parse lib (cleanJsonResponse (CHR ''{'' # mid @ ''}''))"
    by simp
qed


theorem clean_wrapped_witness:
  "cleanJsonResponse (''Sure, here it is: '' @ ''```json'' @ [NL] @ ''{\"name\":\"Pasta\"}''
      @ [NL] @ ''```'' @ '' Enjoy!'') = ''{\"name\":\"Pasta\"}'' \<and>
   cleanJsonResponse ''{\"name\":\"Pasta\"}'' = ''{\"name\":\"Pasta\"}''"
proof -
  have c: "cleanJsonResponse ''{\"name\":\"Pasta\"}'' = ''{\"name\":\"Pasta\"}''"
    by (simp add: cleanJsonResponse_def from_first_brace_def to_last_brace_def trim_def
        is_space_def)
  show ?thesis
    using clean_wrapped [of "''Sure, here it is: ''" "'' Enjoy!''" "''\"name\":\"Pasta\"''"
        test_library] c
    by simp
qed

text \<open>
  Claim C8, as the code has it.  The claim is stated for any prose around the fences.  The
  cleaning keeps what stands between the first opening and the last closing brace of the
  whole text: with a brace in the prose the cleaned text is another one, and it is not
  the text of an object any more.
\<close>

theorem clean_wrapped_counterexample:
  "cleanJsonResponse (''Sure {here} '' @ ''```json'' @ [NL] @ ''{}'' @ [NL] @ ''```'' @ '' Enjoy!'') =
     ''{here} '' @ [NL] @ ''{}'' \<and>
   cleanJsonResponse ''{}'' = ''{}'' \<and>
   JSON_parse test_library
     (cleanJsonResponse (''Sure {here} '' @ ''```json'' @ [NL] @ ''{}'' @ [NL] @ ''```'' @ '' Enjoy!'')) \<noteq>
   JSON_parse test_library (cleanJsonResponse ''{}'')"
  by (simp add: cleanJsonResponse_def from_first_brace_def to_last_brace_def trim_def
      is_space_def NL_def test_library_def)

section \<open>Fetching the page\<close>

text \<open>
  Claim C5, as the code has it.  The claim counts a non-success status of the \<open>GET\<close> as a
  failure of the fetcher.  The status is not looked at: on a 404 the page that came with
  it is cleaned and handed to the model, and the answer is not the fetch error.
\<close>

theorem status_not_checked_counterexample:
  "fetchUrlContent world404 test_library ''https://example.test/recipe'' [] =
     (Inr ''Not Found'', [GET ''https://example.test/recipe'']) \<and>
   snd (POST world404 test_library url_request []) =
     [GET ''https://example.test/recipe'',
      Generate [Text EXTRACTION_PROMPT, Text ''Not Found'']] \<and>
   fst (POST world404 test_library url_request []) \<noteq> ErrorResponse ''Failed to fetch URL'' 400 None"
  by (simp add: fetchUrlContent_def world404_def test_library_def trim_def is_space_def
      POST_def url_request_def truthy_def prepare_def finish_def cleanJsonResponse_def
      from_first_brace_def to_last_brace_def resolve_image_def normalizeImage_def)

text \<open>
  Claim C5, amended.  The fetcher fails exactly when the \<open>GET\<close> itself rejects, by a
  network failure or a timeout; a response of any status is read, cleaned and returned.
  In both cases exactly one \<open>GET\<close> has been issued.  When the input is a URL and the \<open>GET\<close>
  rejects, the handler answers \<open>Failed to fetch URL\<close> with status 400 after that one
  \<open>GET\<close>, without a second attempt and without calling the model.
\<close>

theorem fetch_error_iff:
  "(fst (fetchUrlContent w lib url lg) = Inl FetchFailed \<longleftrightarrow>
      http_get w lg url = NetworkError \<or> http_get w lg url = Timeout) \<and>
   snd (fetchUrlContent w lib url lg) = lg @ [GET url] \<and>
   (http_get w lg url = Response st html \<longrightarrow>
      fst (fetchUrlContent w lib url lg) = Inr (trim (collapse_ws (body_text lib html)))) \<and>
   (truthy (api_key req) \<and> req_content req = JsonBody url ''url'' \<and>
      (http_get w lg url = NetworkError \<or> http_get w lg url = Timeout) \<longrightarrow>
      POST w lib req lg = (ErrorResponse ''Failed to fetch URL'' 400 None, lg @ [GET url]))"
  by (auto simp: fetchUrlContent_def POST_def prepare_def split: get_outcome.splits)

theorem fetch_error_iff_witness:
  "fst (fetchUrlContent world_down test_library ''https://example.test/recipe'' []) = Inl FetchFailed \<and>
   POST world_down test_library url_request [] =
     (ErrorResponse ''Failed to fetch URL'' 400 None, [GET ''https://example.test/recipe'']) \<and>
   fst (fetchUrlContent world404 test_library ''https://example.test/recipe'' []) = Inr ''Not Found''"
  using fetch_error_iff [of world_down test_library "''https://example.test/recipe''" "[]"
      0 "[]" url_request]
    fetch_error_iff [of world404 test_library "''https://example.test/recipe''" "[]"
      404 "''<html><body> Not   Found </body></html>''" url_request]
  by (simp add: world_down_def world404_def url_request_def truthy_def test_library_def
      trim_def is_space_def)


section \<open>Resolving the image\<close>

lemma remove_all_noop: "pat \<noteq> [] \<Longrightarrow> hd pat \<notin> set s \<Longrightarrow> remove_all pat s = s"
proof (induction pat s rule: remove_all.induct)
  case (1 pat)
  then show ?case by simp
next
  case (2 pat x xs)
  have "\<not> (pat \<noteq> [] \<and> take (length pat) (x # xs) = pat)"
    using 2(3,4) by (cases pat) auto
  then show ?case using 2 by auto
qed

lemma clean_answer:
  "cleanJsonResponse ''{\"name\":\"Pasta\",\"image\":{\"url\":5}}'' =
     ''{\"name\":\"Pasta\",\"image\":{\"url\":5}}''"
  by (simp add: cleanJsonResponse_def remove_all_noop from_first_brace_def to_last_brace_def
      trim_def is_space_def del: remove_all.simps)

lemma normalizeImage_number:
  "normalizeImage w (Some (JObj [(''url'', JNum (Num 5))])) lg = (Inl TypeError, lg)"
  by (simp add: normalizeImage_def image_candidate_def falsy_def)

lemma resolve_image_number:
  "resolve_image w lib [(''name'', JStr ''Pasta''), (''image'', JObj [(''url'', JNum (Num 5))])] lg =
     (Inl TypeError, lg)"
  by (simp add: resolve_image_def normalizeImage_number)

text \<open>
  Claim C4, evaluated where it fails.  An image object whose \<open>url\<close> is truthy and not a
  string (here the number 5) is taken as the candidate; \<open>startsWith\<close> is then called on it
  outside the \<open>try\<close>, the call throws, and the handler answers with the parse failure
  instead of a record with the fallback image.
\<close>

theorem nonstring_url_aborts:
  "normalizeImage w (Some (JObj [(''url'', JNum (Num 5))])) lg = (Inl TypeError, lg) \<and>
   normalizeImage w (Some (JArr [JObj [(''url'', JBool True)]])) lg = (Inl TypeError, lg) \<and>
   resolve_image w lib [(''name'', JStr ''Pasta''), (''image'', JObj [(''url'', JNum (Num 5))])] lg =
     (Inl TypeError, lg) \<and>
   POST world_ai library_ai text_request [] =
     (ErrorResponse ''Failed to parse API response'' 500
        (Some ''{\"name\":\"Pasta\",\"image\":{\"url\":5}}''),
      [Generate [Text EXTRACTION_PROMPT, Text ''Pasta with salt'']])"
proof (intro conjI)
  show "normalizeImage w (Some (JObj [(''url'', JNum (Num 5))])) lg = (Inl TypeError, lg)"
    by (rule normalizeImage_number)
  show "normalizeImage w (Some (JArr [JObj [(''url'', JBool True)]])) lg = (Inl TypeError, lg)"
    by (simp add: normalizeImage_def image_candidate_def)
  show "resolve_image w lib [(''name'', JStr ''Pasta''), (''image'', JObj [(''url'', JNum (Num 5))])] lg =
     (Inl TypeError, lg)"
    by (rule resolve_image_number)
  have p: "prepare world_ai library_ai (req_content text_request) [] =
      (Inr ([Text ''Pasta with salt''], []), [])"
    by (simp add: prepare_def text_request_def)
  have g: "generateContent world_ai lg' parts = Some ''{\"name\":\"Pasta\",\"image\":{\"url\":5}}''"
    for lg' parts
    by (simp add: world_ai_def)
  have j: "JSON_parse library_ai ''{\"name\":\"Pasta\",\"image\":{\"url\":5}}'' =
      Some [(''name'', JStr ''Pasta''), (''image'', JObj [(''url'', JNum (Num 5))])]"
    by (simp add: library_ai_def)
  have f: "finish world_ai library_ai [] ''{\"name\":\"Pasta\",\"image\":{\"url\":5}}'' lg' =
      (ErrorResponse ''Failed to parse API response'' 500
        (Some ''{\"name\":\"Pasta\",\"image\":{\"url\":5}}''), lg')" for lg'
    by (simp add: finish_def clean_answer j resolve_image_number)
  have k: "truthy (api_key text_request)"
    by (simp add: text_request_def truthy_def)
  show "POST world_ai library_ai text_request [] =
     (ErrorResponse ''Failed to parse API response'' 500
        (Some ''{\"name\":\"Pasta\",\"image\":{\"url\":5}}''),
      [Generate [Text EXTRACTION_PROMPT, Text ''Pasta with salt'']])"
    by (simp add: POST_def k p g f)
qed

text \<open>
  On every other input the image is resolved as the claim says: when the candidate is
  falsy or a string, the record that results has a non-empty string as its image.
\<close>

lemma normalizeImage_string:
  assumes "\<not> js_truthy (image_candidate im) \<or> (\<exists>u. image_candidate im = Some (JStr u))"
  shows "fst (normalizeImage w im lg) = Inr None \<or>
     (\<exists>u. fst (normalizeImage w im lg) = Inr (Some u) \<and> take 4 u = ''http'')"
proof (cases "js_truthy im")
  case False
  then show ?thesis by (simp add: normalizeImage_def)
next
  case t: True
  show ?thesis
  proof (cases "js_truthy (image_candidate im)")
    case False
    then show ?thesis using t by (simp add: normalizeImage_def)
  next
    case True
    with assms obtain u where u: "image_candidate im = Some (JStr u)" by blast
    show ?thesis
    proof (cases "take 4 u = ''http''")
      case False
      then show ?thesis using t True u by (simp add: normalizeImage_def)
    next
      case h: True
      then show ?thesis using t True u
        by (cases "http_head w lg u") (simp_all add: normalizeImage_def)
    qed
  qed
qed

lemma fallback_nonempty: "generateFallbackImageUrl lib recipe \<noteq> []"
  by (simp add: generateFallbackImageUrl_def Let_def POLLINATIONS_BASE_URL_def)

lemma resolve_image_string:
  assumes "\<not> js_truthy (image_candidate (map_of recipe ''image'')) \<or>
     (\<exists>u. image_candidate (map_of recipe ''image'') = Some (JStr u))"
  shows "\<exists>r u. fst (resolve_image w lib recipe lg) = Inr r \<and>
     map_of r ''image'' = Some (JStr u) \<and> u \<noteq> []"
proof -
  obtain res lg' where n: "normalizeImage w (map_of recipe ''image'') lg = (res, lg')"
    by (cases "normalizeImage w (map_of recipe ''image'') lg") auto
  from normalizeImage_string [OF assms, of w lg] n
  consider "res = Inr None" | u where "res = Inr (Some u)" "take 4 u = ''http''"
    by auto
  then show ?thesis
  proof cases
    case 1
    then show ?thesis
      using n fallback_nonempty by (simp add: resolve_image_def update_conv')
  next
    case 2
    then have "u \<noteq> []" by auto
    then show ?thesis
      using n 2 by (simp add: resolve_image_def update_conv')
  qed
qed

lemma resolve_image_string_example:
  "\<exists>r u. fst (resolve_image world_ai library_ai [(''name'', JStr ''Pasta'')] []) = Inr r \<and>
     map_of r ''image'' = Some (JStr u) \<and> u \<noteq> []"
  using resolve_image_string [of "[(''name'', JStr ''Pasta'')]" world_ai library_ai "[]"]
  by (simp add: image_candidate_def)


end
